theory Spec2Isabelle
  imports
    Main
    "HOL-Library.Char_ord"
    "HOL-Library.List_Lexorder"
    "HOL-Library.Product_Lexorder"
begin

section \<open>pymarc.field: the MARC field and its operations\<close>

text \<open>
  The development follows \<^verbatim>\<open>src/pymarc/field.py\<close>. Python text is a
  \<^typ>\<open>string\<close>: a list of characters, each a code point below 256, compared by code
  point (the orders of \<^verbatim>\<open>Char_ord\<close> and \<^verbatim>\<open>List_Lexorder\<close> are Python's
  \<^verbatim>\<open><\<close> on such text). The values a \<^verbatim>\<open>Field\<close> holds are text; where text
  and byte strings meet, in serialization, a string object carries its type
  (\<^verbatim>\<open>pystr\<close>). An exception is a value of
  \<^verbatim>\<open>py_error\<close>; a method that mutates the field returns its outcome together with
  the field as it is left, also when it raises.
\<close>

subsection \<open>Python values and built-ins\<close>

datatype py_error =
  IndexError | KeyError | ValueError | AttributeError | TypeError | UnicodeEncodeError

text \<open>
  Python's list index: \<^verbatim>\<open>i\<close> counts from the front when it is not negative and
  from the back when it is; \<^verbatim>\<open>None\<close> when it falls outside the list.
\<close>

definition py_index :: "nat \<Rightarrow> int \<Rightarrow> nat option" where
  "py_index len i =
     (if 0 \<le> i \<and> i < int len then Some (nat i)
      else if i < 0 \<and> - int len \<le> i then Some (nat (int len + i))
      else None)"

definition py_getitem :: "'a list \<Rightarrow> int \<Rightarrow> py_error + 'a" where
  "py_getitem xs i =
     (case py_index (length xs) i of None \<Rightarrow> Inl IndexError | Some k \<Rightarrow> Inr (xs ! k))"

definition py_setitem :: "'a list \<Rightarrow> int \<Rightarrow> 'a \<Rightarrow> py_error + 'a list" where
  "py_setitem xs i v =
     (case py_index (length xs) i of None \<Rightarrow> Inl IndexError | Some k \<Rightarrow> Inr (xs[k := v]))"

text \<open>\<^verbatim>\<open>xs.pop(i)\<close> for an index \<^verbatim>\<open>i \<ge> 0\<close>: the element and the list without it.\<close>

definition py_pop :: "'a list \<Rightarrow> nat \<Rightarrow> py_error + ('a \<times> 'a list)" where
  "py_pop xs i =
     (if i < length xs then Inr (xs ! i, take i xs @ drop (Suc i) xs) else Inl IndexError)"

text \<open>
  \<^verbatim>\<open>str.isdigit\<close> and the decimal digits on code points below 256: besides
  \<^verbatim>\<open>0\<close>..\<^verbatim>\<open>9\<close>, Python counts the superscripts U+00B2, U+00B3 and U+00B9 as
  digits (not as decimals).
\<close>

definition is_decimal :: "char \<Rightarrow> bool" where
  "is_decimal c = (48 \<le> (of_char c :: nat) \<and> (of_char c :: nat) \<le> 57)"

definition char_isdigit :: "char \<Rightarrow> bool" where
  "char_isdigit c = (is_decimal c \<or> (of_char c :: nat) = 178 \<or> (of_char c :: nat) = 179
     \<or> (of_char c :: nat) = 185)"

definition isdigit :: "string \<Rightarrow> bool" where
  "isdigit s = (s \<noteq> [] \<and> list_all char_isdigit s)"

text \<open>
  \<^verbatim>\<open>int(s)\<close> on text: surrounding whitespace, an optional sign, then decimal digits
  with single underscores allowed between digits; \<^verbatim>\<open>None\<close> is \<^verbatim>\<open>ValueError\<close>.
  The whitespace \<^verbatim>\<open>int\<close> skips is narrower than that of \<^verbatim>\<open>str.strip\<close>: tab
  to carriage return and the space among the ASCII characters (not the separators
  U+001C to U+001F), and U+0085 and U+00A0 above them. A text of more than
  \<^verbatim>\<open>sys.get_int_max_str_digits()\<close> digits, 4300 unless reconfigured, is refused;
  underscores, sign and whitespace do not count.
\<close>

definition int_isspace :: "char \<Rightarrow> bool" where
  "int_isspace c =
     (let n = (of_char c :: nat)
      in (9 \<le> n \<and> n \<le> 13) \<or> n = 32 \<or> n = 133 \<or> n = 160)"

definition int_strip :: "string \<Rightarrow> string" where
  "int_strip s = rev (dropWhile int_isspace (rev (dropWhile int_isspace s)))"

definition int_max_str_digits :: nat where
  "int_max_str_digits = 4300"

fun int_digits :: "nat \<Rightarrow> string \<Rightarrow> nat option" where
  "int_digits acc [] = Some acc"
| "int_digits acc (c # cs) =
     (if is_decimal c then int_digits (acc * 10 + ((of_char c :: nat) - 48)) cs
      else if c = CHR ''_'' then
        (case cs of
           [] \<Rightarrow> None
         | d # ds \<Rightarrow> if is_decimal d then int_digits acc cs else None)
      else None)"

definition int_unsigned :: "string \<Rightarrow> nat option" where
  "int_unsigned s =
     (case s of
        [] \<Rightarrow> None
      | c # cs \<Rightarrow>
          if is_decimal c \<and> length (filter is_decimal s) \<le> int_max_str_digits
          then int_digits 0 s else None)"

definition py_int :: "string \<Rightarrow> int option" where
  "py_int s =
     (case int_strip s of
        [] \<Rightarrow> None
      | c # cs \<Rightarrow>
          if c = CHR ''-'' then map_option (\<lambda>n. - int n) (int_unsigned cs)
          else if c = CHR ''+'' then map_option int (int_unsigned cs)
          else map_option int (int_unsigned (c # cs)))"

text \<open>
  \<^verbatim>\<open>'%03i' % n\<close> and \<^verbatim>\<open>'%03s' % s\<close>. Writing an integer out in decimal is
  under the same limit as reading one: \<^verbatim>\<open>ValueError\<close> beyond 4300 digits, the
  sign not counted (\<^verbatim>\<open>format_int\<close>).
\<close>

fun nat_digits :: "nat \<Rightarrow> string" where
  "nat_digits n =
     (if n < 10 then [char_of (48 + n)]
      else nat_digits (n div 10) @ [char_of (48 + n mod 10)])"

declare nat_digits.simps [simp del]

definition zero_pad :: "nat \<Rightarrow> string \<Rightarrow> string" where
  "zero_pad w s = replicate (w - length s) CHR ''0'' @ s"

definition format_03i :: "int \<Rightarrow> string" where
  "format_03i n =
     (if n < 0 then CHR ''-'' # zero_pad 2 (nat_digits (nat (- n)))
      else zero_pad 3 (nat_digits (nat n)))"

definition format_int :: "int \<Rightarrow> py_error + string" where
  "format_int n =
     (if int_max_str_digits < length (nat_digits (nat \<bar>n\<bar>)) then Inl ValueError
      else Inr (format_03i n))"

definition format_03s :: "string \<Rightarrow> string" where
  "format_03s s = replicate (3 - length s) CHR '' '' @ s"

subsection \<open>The field\<close>

text \<open>
  A \<^verbatim>\<open>Field\<close> object is its attributes; an attribute the constructor did not
  set is \<^verbatim>\<open>None\<close>, and reading it raises \<^verbatim>\<open>AttributeError\<close>.
\<close>

text \<open>
  What the \<^verbatim>\<open>subfields\<close> attribute can hold: the list the constructor makes, or
  the object \<^verbatim>\<open>map(...)\<close> returns, which \<^verbatim>\<open>map_marc8_field\<close> stores. In
  Python 3 that is not a list but a lazy iterator, to be run through once:
  \<^verbatim>\<open>PyMap xs\<close> is such an object that has \<^verbatim>\<open>xs\<close> left to yield. It has no
  \<^verbatim>\<open>len\<close>, no indexing or slicing, and no \<^verbatim>\<open>append\<close> or \<^verbatim>\<open>pop\<close>.
\<close>

datatype pyseq = PyList "string list" | PyMap "string list"

record field =
  tag :: string
  data :: "string option"
  indicators :: "string list option"
  indicator1 :: "string option"
  indicator2 :: "string option"
  subfields :: "pyseq option"

text \<open>The constructor's \<^verbatim>\<open>tag\<close> argument: an integer or text.\<close>

datatype tag_arg = TagInt int | TagStr string

text \<open>
  The tag as \<^verbatim>\<open>__init__\<close> stores it: \<^verbatim>\<open>'%03i' % int(tag)\<close>, and
  \<^verbatim>\<open>'%03s' % tag\<close> when that raises \<^verbatim>\<open>ValueError\<close>. For an integer too long
  to be written out the second formatting raises as the first did, and nothing catches
  it.
\<close>

definition normalize_tag :: "tag_arg \<Rightarrow> py_error + string" where
  "normalize_tag t =
     (case t of
        TagInt n \<Rightarrow>
          (case format_int n of
             Inr tg \<Rightarrow> Inr tg
           | Inl e \<Rightarrow> Inl ValueError)
      | TagStr s \<Rightarrow>
          (case py_int s of
             None \<Rightarrow> Inr (format_03s s)
           | Some n \<Rightarrow>
               (case format_int n of
                  Inr tg \<Rightarrow> Inr tg
                | Inl e \<Rightarrow> Inr (format_03s s))))"

definition tag_is_control :: "string \<Rightarrow> bool" where
  "tag_is_control t = (t < ''010'' \<and> isdigit t)"

definition is_control_field :: "field \<Rightarrow> bool" where
  "is_control_field f = tag_is_control (tag f)"

text \<open>
  \<^verbatim>\<open>Field.__init__(tag, indicators=None, subfields=None, data='')\<close>. The tuple
  assignment of the indicators raises \<^verbatim>\<open>ValueError\<close> unless there are exactly two.
\<close>

definition Field_init ::
  "tag_arg \<Rightarrow> string list option \<Rightarrow> string list option \<Rightarrow> string \<Rightarrow> py_error + field" where
  "Field_init tag_a indicators_a subfields_a data_a =
     (let inds = (case indicators_a of None \<Rightarrow> [] | Some xs \<Rightarrow> xs);
          subs = (case subfields_a of None \<Rightarrow> [] | Some xs \<Rightarrow> xs)
      in case normalize_tag tag_a of
           Inl e \<Rightarrow> Inl e
         | Inr t \<Rightarrow>
             if tag_is_control t then
               Inr \<lparr>tag = t, data = Some data_a, indicators = None, indicator1 = None,
                    indicator2 = None, subfields = None\<rparr>
             else
               (case inds of
                  [i1, i2] \<Rightarrow>
                    Inr \<lparr>tag = t, data = None, indicators = Some inds, indicator1 = Some i1,
                         indicator2 = Some i2, subfields = Some (PyList subs)\<rparr>
                | _ \<Rightarrow> Inl ValueError))"

subsection \<open>Iteration\<close>

text \<open>
  \<^verbatim>\<open>__next__\<close> at cursor \<^verbatim>\<open>pos\<close>: the next (code, value) pair and the new
  cursor, \<^verbatim>\<open>None\<close> for \<^verbatim>\<open>StopIteration\<close>. A field without the
  \<^verbatim>\<open>subfields\<close> attribute stops at once; reading the value of a trailing code
  without value raises \<^verbatim>\<open>IndexError\<close>, and \<^verbatim>\<open>len\<close> of a map object
  \<^verbatim>\<open>TypeError\<close>.
\<close>

text \<open>The length of the subfield list, 0 where the field holds none.\<close>

definition list_size :: "field \<Rightarrow> nat" where
  "list_size f = (case subfields f of Some (PyList subs) \<Rightarrow> length subs | _ \<Rightarrow> 0)"

definition Field_next :: "field \<Rightarrow> nat \<Rightarrow> py_error + ((string \<times> string) \<times> nat) option" where
  "Field_next f pos =
     (case subfields f of
        None \<Rightarrow> Inr None
      | Some (PyMap pending) \<Rightarrow> Inl TypeError
      | Some (PyList subs) \<Rightarrow>
          if pos < length subs then
            (case py_getitem subs (int pos + 1) of
               Inl e \<Rightarrow> Inl e
             | Inr v \<Rightarrow> Inr (Some ((subs ! pos, v), pos + 2)))
          else Inr None)"

text \<open>
  \<^verbatim>\<open>for subfield in self\<close>, run to its end from cursor \<^verbatim>\<open>pos\<close>
  (\<^verbatim>\<open>__iter__\<close> sets it to 0): the pairs it yields, or the exception that ends it.
  No method below mutates the field or starts a second traversal inside such a loop, so
  the cursor is a parameter here.
\<close>

function iterate_from :: "field \<Rightarrow> nat \<Rightarrow> py_error + (string \<times> string) list" where
  "iterate_from f pos =
     (case Field_next f pos of
        Inl e \<Rightarrow> Inl e
      | Inr None \<Rightarrow> Inr []
      | Inr (Some (subfield, pos')) \<Rightarrow>
          (case iterate_from f pos' of
             Inl e \<Rightarrow> Inl e
           | Inr rest \<Rightarrow> Inr (subfield # rest)))"
  by pat_completeness auto
termination
  by (relation "measure (\<lambda>(f, pos). list_size f - pos)")
     (auto simp: Field_next_def list_size_def split: option.splits if_splits sum.splits
        pyseq.splits)

declare iterate_from.simps [simp del]

definition Field_iter :: "field \<Rightarrow> py_error + (string \<times> string) list" where
  "Field_iter f = iterate_from f 0"

subsection \<open>Queries\<close>

text \<open>
  What \<^verbatim>\<open>get_subfields\<close> collects: the value, or the (code, value) tuple when
  \<^verbatim>\<open>with_codes\<close> is set.
\<close>

datatype item = Str string | Tup string string

definition get_subfields :: "field \<Rightarrow> string list \<Rightarrow> bool \<Rightarrow> py_error + item list" where
  "get_subfields f codes with_codes =
     (case Field_iter f of
        Inl e \<Rightarrow> Inl e
      | Inr pairs \<Rightarrow>
          Inr (map (\<lambda>subfield. if with_codes then Tup (fst subfield) (snd subfield)
                               else Str (snd subfield))
                 (filter (\<lambda>subfield. fst subfield \<in> set codes \<or> codes = []) pairs)))"

definition Field_getitem :: "field \<Rightarrow> string \<Rightarrow> py_error + item option" where
  "Field_getitem f subfield =
     (case get_subfields f [subfield] False of
        Inl e \<Rightarrow> Inl e
      | Inr vals \<Rightarrow> (if length vals > 0 then Inr (Some (vals ! 0)) else Inr None))"

definition Field_contains :: "field \<Rightarrow> string \<Rightarrow> py_error + bool" where
  "Field_contains f subfield =
     (case get_subfields f [subfield] False of
        Inl e \<Rightarrow> Inl e
      | Inr vals \<Rightarrow> Inr (length vals > 0))"

definition count :: "field \<Rightarrow> string \<Rightarrow> py_error + nat" where
  "count f code =
     (case Field_iter f of
        Inl e \<Rightarrow> Inl e
      | Inr pairs \<Rightarrow> Inr (length (filter (\<lambda>subf. fst subf = code) pairs)))"

subsection \<open>Mutation\<close>

definition add_subfield :: "field \<Rightarrow> string \<Rightarrow> string \<Rightarrow> (py_error + unit) \<times> field" where
  "add_subfield f code val =
     (case subfields f of
        None \<Rightarrow> (Inl AttributeError, f)
      | Some (PyMap pending) \<Rightarrow> (Inl AttributeError, f)
      | Some (PyList subs) \<Rightarrow>
          (Inr (), f\<lparr>subfields := Some (PyList ((subs @ [code]) @ [val]))\<rparr>))"

text \<open>
  The two \<^verbatim>\<open>pop(i)\<close> of \<^verbatim>\<open>delete_subfield\<close>: the code, then the value that
  has moved to index \<^verbatim>\<open>i\<close>. The first pop stays done when the second raises.
\<close>

definition pop_pair :: "string list \<Rightarrow> nat \<Rightarrow> (py_error + string option) \<times> string list" where
  "pop_pair subs i =
     (case py_pop subs i of
        Inl e \<Rightarrow> (Inl e, subs)
      | Inr (c, subs1) \<Rightarrow>
          (case py_pop subs1 i of
             Inl e \<Rightarrow> (Inl e, subs1)
           | Inr (v, subs2) \<Rightarrow> (Inr (Some v), subs2)))"

text \<open>
  The loop of \<^verbatim>\<open>delete_subfield\<close> over \<^verbatim>\<open>enumerate(self.subfields)\<close>;
  \<^verbatim>\<open>match_value\<close> is \<^verbatim>\<open>None\<close> when the caller gave none.
\<close>

fun delete_scan ::
  "string list \<Rightarrow> string \<Rightarrow> string option \<Rightarrow> (nat \<times> string) list
     \<Rightarrow> (py_error + string option) \<times> string list" where
  "delete_scan subs code match_value [] = (Inr None, subs)"
| "delete_scan subs code match_value ((i, subf_code) # rest) =
     (if i mod 2 = 0 \<and> code = subf_code then
        (case match_value of
           None \<Rightarrow> pop_pair subs i
         | Some m \<Rightarrow>
             (case py_getitem subs (int i + 1) of
                Inl e \<Rightarrow> (Inl e, subs)
              | Inr v \<Rightarrow>
                  if v = m then pop_pair subs i
                  else delete_scan subs code match_value rest))
      else delete_scan subs code match_value rest)"

text \<open>
  The same loop over a map object, from index \<^verbatim>\<open>i\<close>: \<^verbatim>\<open>enumerate\<close> draws
  its elements one by one, and at a match \<^verbatim>\<open>pop\<close> is missing
  (\<^verbatim>\<open>AttributeError\<close>) or, with a \<^verbatim>\<open>match_value\<close>, the indexing fails
  (\<^verbatim>\<open>TypeError\<close>). The second component is what the object has left to yield.
\<close>

fun delete_scan_map ::
  "string \<Rightarrow> string option \<Rightarrow> nat \<Rightarrow> string list \<Rightarrow> (py_error + string option) \<times> string list" where
  "delete_scan_map code match_value i [] = (Inr None, [])"
| "delete_scan_map code match_value i (subf_code # rest) =
     (if i mod 2 = 0 \<and> code = subf_code then
        (case match_value of
           None \<Rightarrow> (Inl AttributeError, rest)
         | Some m \<Rightarrow> (Inl TypeError, rest))
      else delete_scan_map code match_value (i + 1) rest)"

definition delete_subfield ::
  "field \<Rightarrow> string \<Rightarrow> string option \<Rightarrow> (py_error + string option) \<times> field" where
  "delete_subfield f code match_value =
     (case subfields f of
        None \<Rightarrow> (Inl AttributeError, f)
      | Some (PyMap pending) \<Rightarrow>
          (case delete_scan_map code match_value 0 pending of
             (r, rest) \<Rightarrow> (r, f\<lparr>subfields := Some (PyMap rest)\<rparr>))
      | Some (PyList subs) \<Rightarrow>
          (case delete_scan subs code match_value (enumerate 0 subs) of
             (r, subs') \<Rightarrow> (r, f\<lparr>subfields := Some (PyList subs')\<rparr>)))"

lemma delete_scan_map_no_value:
  "delete_scan_map code mv i pending \<noteq> (Inr (Some v), rest)"
  by (induction code mv i pending rule: delete_scan_map.induct) (auto split: option.splits)

lemma pop_pair_length:
  "pop_pair subs i = (Inr (Some v), subs') \<Longrightarrow> length subs' + 2 = length subs"
  by (auto simp: pop_pair_def py_pop_def split: if_splits)

lemma delete_scan_length:
  "delete_scan subs code mv es = (Inr (Some v), subs') \<Longrightarrow> length subs' + 2 = length subs"
  by (induction subs code mv es rule: delete_scan.induct)
     (auto split: if_splits option.splits sum.splits dest: pop_pair_length)

text \<open>
  \<^verbatim>\<open>while self.delete_subfield(code): continue\<close>. The loop goes on while the
  returned value is truthy: not \<^verbatim>\<open>None\<close> and not the empty text.
\<close>

function delete_all_subfields :: "field \<Rightarrow> string \<Rightarrow> (py_error + unit) \<times> field" where
  "delete_all_subfields f code =
     (case delete_subfield f code None of
        (Inl e, f') \<Rightarrow> (Inl e, f')
      | (Inr None, f') \<Rightarrow> (Inr (), f')
      | (Inr (Some v), f') \<Rightarrow>
          if v \<noteq> [] then delete_all_subfields f' code else (Inr (), f'))"
  by pat_completeness auto
termination
  by (relation "measure (\<lambda>(f, code). list_size f)")
     (auto simp: delete_subfield_def list_size_def delete_scan_map_no_value
        split: option.splits prod.splits pyseq.splits dest: delete_scan_length)

declare delete_all_subfields.simps [simp del]

text \<open>
  \<^verbatim>\<open>change_code\<close> builds a new list from \<^verbatim>\<open>enumerate(self.subfields)\<close>, which
  runs through a map object as well as through a list.
\<close>

definition change_code :: "field \<Rightarrow> string \<Rightarrow> string \<Rightarrow> (py_error + unit) \<times> field" where
  "change_code f from_code to_code =
     (case subfields f of
        None \<Rightarrow> (Inl AttributeError, f)
      | Some (PyMap pending) \<Rightarrow>
          (Inr (), f\<lparr>subfields :=
             Some (PyList (map (\<lambda>(i, val). if i mod 2 \<noteq> 0 then val
                                   else if val = from_code then to_code else val)
                     (enumerate 0 pending)))\<rparr>)
      | Some (PyList subs) \<Rightarrow>
          (Inr (), f\<lparr>subfields :=
             Some (PyList (map (\<lambda>(i, val). if i mod 2 \<noteq> 0 then val
                                   else if val = from_code then to_code else val)
                     (enumerate 0 subs)))\<rparr>))"

text \<open>The slice \<^verbatim>\<open>xs[::2]\<close>; \<^verbatim>\<open>xs[1::2]\<close> is the same slice of \<^verbatim>\<open>xs[1:]\<close>.\<close>

fun slice2 :: "'a list \<Rightarrow> 'a list" where
  "slice2 [] = []"
| "slice2 (x # xs) = x # slice2 (drop 1 xs)"

text \<open>
  \<^verbatim>\<open>sort(key)\<close>: \<^verbatim>\<open>sorted\<close> is stable, as \<^const>\<open>sort_key\<close> is, and hands
  \<^verbatim>\<open>key\<close> each element of the zipped list, the (code, value) tuple.
\<close>

definition Field_sort ::
  "field \<Rightarrow> (string \<times> string \<Rightarrow> 'k::linorder) \<Rightarrow> (py_error + unit) \<times> field" where
  "Field_sort f key =
     (case subfields f of
        None \<Rightarrow> (Inl AttributeError, f)
      | Some (PyMap pending) \<Rightarrow> (Inl TypeError, f)
      | Some (PyList subs) \<Rightarrow>
          (Inr (), f\<lparr>subfields :=
             Some (PyList (concat (map (\<lambda>(c, v). [c, v])
                     (sort_key key (zip (slice2 subs) (slice2 (drop 1 subs)))))))\<rparr>))"

text \<open>The default \<^verbatim>\<open>key=lambda code: code\<close>: the tuple itself, in Python's tuple order.\<close>

definition default_key :: "string \<times> string \<Rightarrow> string \<times> string" where
  "default_key code = code"

text \<open>
  The loop of \<^verbatim>\<open>__setitem__\<close> that looks for the one subfield with the code,
  from \<^verbatim>\<open>num_code = len(self.subfields)//2\<close> down to 0.
\<close>

function setitem_loop ::
  "string list \<Rightarrow> string \<Rightarrow> string \<Rightarrow> int \<Rightarrow> (py_error + unit) \<times> string list" where
  "setitem_loop subs code val num_code =
     (if num_code \<ge> 0 then
        (case py_getitem subs (num_code * 2 - 2) of
           Inl e \<Rightarrow> (Inl e, subs)
         | Inr c \<Rightarrow>
             if c = code then
               (case py_setitem subs (num_code * 2 - 1) val of
                  Inl e \<Rightarrow> (Inl e, subs)
                | Inr subs' \<Rightarrow> (Inr (), subs'))
             else setitem_loop subs code val (num_code - 1))
      else (Inr (), subs))"
  by pat_completeness auto
termination
  by (relation "measure (\<lambda>(subs, code, val, num_code). nat (num_code + 1))") auto

declare setitem_loop.simps [simp del]

definition Field_setitem :: "field \<Rightarrow> string \<Rightarrow> string \<Rightarrow> (py_error + unit) \<times> field" where
  "Field_setitem f code val =
     (case get_subfields f [code] False of
        Inl e \<Rightarrow> (Inl e, f)
      | Inr found \<Rightarrow>
          if length found > 1 then (Inl KeyError, f)
          else if length found = 0 then add_subfield f code val
          else
            (case subfields f of
               None \<Rightarrow> (Inl AttributeError, f)
             | Some (PyMap pending) \<Rightarrow> (Inl TypeError, f)
             | Some (PyList subs) \<Rightarrow>
                 (case setitem_loop subs code val (int (length subs) div 2) of
                    (r, subs') \<Rightarrow> (r, f\<lparr>subfields := Some (PyList subs')\<rparr>))))"

subsection \<open>Text rendering\<close>

definition backslash :: char where
  "backslash = CHR 0x5C"

text \<open>The two loops of \<^verbatim>\<open>__str__\<close> on a data field, each adding to \<^verbatim>\<open>text\<close>.\<close>

definition str_indicators :: "string \<Rightarrow> string list \<Rightarrow> string" where
  "str_indicators text inds =
     foldl (\<lambda>text indicator.
              if indicator = [CHR '' ''] \<or> indicator = [backslash] then text @ [backslash]
              else text @ indicator)
       text inds"

definition str_subfields :: "string \<Rightarrow> (string \<times> string) list \<Rightarrow> string" where
  "str_subfields text pairs =
     foldl (\<lambda>text subfield. text @ (''$'' @ fst subfield @ snd subfield)) text pairs"

definition Field_str :: "field \<Rightarrow> py_error + string" where
  "Field_str f =
     (if is_control_field f then
        (case data f of
           None \<Rightarrow> Inl AttributeError
         | Some d \<Rightarrow>
             Inr (''='' @ tag f @ ''  '' @ map (\<lambda>c. if c = CHR '' '' then backslash else c) d))
      else
        (case indicators f of
           None \<Rightarrow> Inl AttributeError
         | Some inds \<Rightarrow>
             (case Field_iter f of
                Inl e \<Rightarrow> Inl e
              | Inr pairs \<Rightarrow>
                  Inr (str_subfields (str_indicators (''='' @ tag f @ ''  '') inds) pairs))))"

subsection \<open>Serialization\<close>

text \<open>
  A Python string object with its type: \<^verbatim>\<open>str\<close> or \<^verbatim>\<open>bytes\<close>. The module
  is Python 3 code (\<^verbatim>\<open>get_subfields\<close> has a keyword-only argument), where the two
  do not mix: \<^verbatim>\<open>+\<close> of one and the other raises \<^verbatim>\<open>TypeError\<close>, and only
  \<^verbatim>\<open>str\<close> has \<^verbatim>\<open>encode\<close>.
\<close>

datatype pystr = Text string | Bytes string

fun py_add :: "pystr \<Rightarrow> pystr \<Rightarrow> py_error + pystr" where
  "py_add (Text a) (Text b) = Inr (Text (a @ b))"
| "py_add (Bytes a) (Bytes b) = Inr (Bytes (a @ b))"
| "py_add _ _ = Inl TypeError"

fun encode_ascii :: "pystr \<Rightarrow> py_error + pystr" where
  "encode_ascii (Text s) =
     (if list_all (\<lambda>c. (of_char c :: nat) < 128) s then Inr (Bytes s)
      else Inl UnicodeEncodeError)"
| "encode_ascii (Bytes s) = Inl AttributeError"

text \<open>
  \<^verbatim>\<open>s.encode(encoding)\<close>; the codec, from the encoding's name and the text to the
  bytes or the exception, is a parameter.
\<close>

fun py_encode :: "(string \<Rightarrow> string \<Rightarrow> py_error + string) \<Rightarrow> pystr \<Rightarrow> string \<Rightarrow> py_error + pystr" where
  "py_encode codec (Text s) encoding =
     (case codec encoding s of Inl e \<Rightarrow> Inl e | Inr b \<Rightarrow> Inr (Bytes b))"
| "py_encode codec (Bytes s) encoding = Inl AttributeError"

text \<open>
  Modelled from the spec: the constants \<^verbatim>\<open>SUBFIELD_INDICATOR\<close> and
  \<^verbatim>\<open>END_OF_FIELD\<close> of \<^verbatim>\<open>pymarc.constants\<close>, which is not among the sources:
  "fixed single-byte constants (conventionally ASCII unit/field separators)", here the
  code points 0x1F and 0x1E. They are text: \<^verbatim>\<open>Field.as_marc\<close> adds them to text and
  encodes the sum, and \<^verbatim>\<open>RawField.as_marc\<close> calls
  \<^verbatim>\<open>SUBFIELD_INDICATOR.encode\<close>. The serializers below take the two constants as
  parameters, so that what is proved of them does not rest on these values.
\<close>

definition SUBFIELD_INDICATOR :: pystr where
  "SUBFIELD_INDICATOR = Text [CHR 0x1F]"

definition END_OF_FIELD :: pystr where
  "END_OF_FIELD = Text [CHR 0x1E]"

text \<open>
  \<^verbatim>\<open>Field.as_marc(encoding)\<close>, first its loop
  \<^verbatim>\<open>marc += SUBFIELD_INDICATOR + subfield[0] + subfield[1]\<close> over the subfields from
  cursor \<^verbatim>\<open>pos\<close>. The values of a \<^verbatim>\<open>Field\<close> are text.
\<close>

function as_marc_loop :: "pystr \<Rightarrow> field \<Rightarrow> nat \<Rightarrow> pystr \<Rightarrow> py_error + pystr" where
  "as_marc_loop subfield_indicator f pos marc =
     (case Field_next f pos of
        Inl e \<Rightarrow> Inl e
      | Inr None \<Rightarrow> Inr marc
      | Inr (Some (subfield, pos')) \<Rightarrow>
          (case py_add subfield_indicator (Text (fst subfield)) of
             Inl e \<Rightarrow> Inl e
           | Inr a \<Rightarrow>
               (case py_add a (Text (snd subfield)) of
                  Inl e \<Rightarrow> Inl e
                | Inr b \<Rightarrow>
                    (case py_add marc b of
                       Inl e \<Rightarrow> Inl e
                     | Inr marc' \<Rightarrow> as_marc_loop subfield_indicator f pos' marc'))))"
  by pat_completeness auto
termination
  by (relation "measure (\<lambda>(subfield_indicator, f, pos, marc).
        list_size f - pos)")
     (auto simp: Field_next_def list_size_def split: option.splits if_splits sum.splits
        pyseq.splits)

declare as_marc_loop.simps [simp del]

definition as_marc ::
  "(string \<Rightarrow> string \<Rightarrow> py_error + string) \<Rightarrow> pystr \<Rightarrow> pystr \<Rightarrow> field \<Rightarrow> string
     \<Rightarrow> py_error + pystr" where
  "as_marc codec subfield_indicator end_of_field f encoding =
     (if is_control_field f then
        (case data f of
           None \<Rightarrow> Inl AttributeError
         | Some d \<Rightarrow>
             (case py_add (Text d) end_of_field of
                Inl e \<Rightarrow> Inl e
              | Inr s \<Rightarrow> py_encode codec s encoding))
      else
        (case indicator1 f of
           None \<Rightarrow> Inl AttributeError
         | Some i1 \<Rightarrow>
             (case indicator2 f of
                None \<Rightarrow> Inl AttributeError
              | Some i2 \<Rightarrow>
                  (case as_marc_loop subfield_indicator f 0 (Text (i1 @ i2)) of
                     Inl e \<Rightarrow> Inl e
                   | Inr marc \<Rightarrow>
                       (case py_add marc end_of_field of
                          Inl e \<Rightarrow> Inl e
                        | Inr s \<Rightarrow> py_encode codec s encoding)))))"

text \<open>
  \<^verbatim>\<open>RawField.as_marc(encoding=None)\<close>. A raw field keeps its data and its subfields
  as byte strings, and that is the raw field modelled here (one built without data holds
  the constructor's default, the empty text, and is not covered); its indicators are
  text, as the constructor makes them. First the loop
  \<^verbatim>\<open>marc += SUBFIELD_INDICATOR.encode('ascii') + subfield[0] + subfield[1]\<close>.
\<close>

function raw_as_marc_loop :: "pystr \<Rightarrow> field \<Rightarrow> nat \<Rightarrow> pystr \<Rightarrow> py_error + pystr" where
  "raw_as_marc_loop subfield_indicator f pos marc =
     (case Field_next f pos of
        Inl e \<Rightarrow> Inl e
      | Inr None \<Rightarrow> Inr marc
      | Inr (Some (subfield, pos')) \<Rightarrow>
          (case encode_ascii subfield_indicator of
             Inl e \<Rightarrow> Inl e
           | Inr sep \<Rightarrow>
               (case py_add sep (Bytes (fst subfield)) of
                  Inl e \<Rightarrow> Inl e
                | Inr a \<Rightarrow>
                    (case py_add a (Bytes (snd subfield)) of
                       Inl e \<Rightarrow> Inl e
                     | Inr b \<Rightarrow>
                         (case py_add marc b of
                            Inl e \<Rightarrow> Inl e
                          | Inr marc' \<Rightarrow> raw_as_marc_loop subfield_indicator f pos' marc')))))"
  by pat_completeness auto
termination
  by (relation "measure (\<lambda>(subfield_indicator, f, pos, marc).
        list_size f - pos)")
     (auto simp: Field_next_def list_size_def split: option.splits if_splits sum.splits
        pyseq.splits)

declare raw_as_marc_loop.simps [simp del]

text \<open>What \<^verbatim>\<open>logging.warn\<close> is handed: the message with the encoding filled in.\<close>

datatype log_record = Warning string

text \<open>
  The records logged, and the bytes returned or the exception raised.
\<close>

definition RawField_as_marc ::
  "pystr \<Rightarrow> pystr \<Rightarrow> field \<Rightarrow> string option \<Rightarrow> log_record list \<times> (py_error + pystr)" where
  "RawField_as_marc subfield_indicator end_of_field f encoding =
     ((case encoding of
         None \<Rightarrow> []
       | Some e \<Rightarrow> [Warning (''Attempt to force a RawField into encoding '' @ e)]),
      (if is_control_field f then
         (case data f of
            None \<Rightarrow> Inl AttributeError
          | Some d \<Rightarrow> py_add (Bytes d) end_of_field)
       else
         (case indicator1 f of
            None \<Rightarrow> Inl AttributeError
          | Some i1 \<Rightarrow>
              (case encode_ascii (Text i1) of
                 Inl e \<Rightarrow> Inl e
               | Inr b1 \<Rightarrow>
                   (case indicator2 f of
                      None \<Rightarrow> Inl AttributeError
                    | Some i2 \<Rightarrow>
                        (case encode_ascii (Text i2) of
                           Inl e \<Rightarrow> Inl e
                         | Inr b2 \<Rightarrow>
                             (case py_add b1 b2 of
                                Inl e \<Rightarrow> Inl e
                              | Inr marc0 \<Rightarrow>
                                  (case raw_as_marc_loop subfield_indicator f 0 marc0 of
                                     Inl e \<Rightarrow> Inl e
                                   | Inr marc \<Rightarrow> py_add marc end_of_field))))))))"

subsection \<open>The MARC-8 decode hook\<close>

text \<open>
  \<^verbatim>\<open>map_marc8_field(f)\<close>. The decoder \<^verbatim>\<open>marc8_to_unicode\<close> of
  \<^verbatim>\<open>pymarc.marc8\<close> is not among the sources and is a parameter. The new
  \<^verbatim>\<open>subfields\<close> is the object \<^verbatim>\<open>map(marc8_to_unicode, f.subfields)\<close>
  returns: a map object that will yield the decoded elements, codes and values alike,
  whether \<^verbatim>\<open>f.subfields\<close> was a list or such an object itself.
\<close>

definition map_marc8_field :: "(string \<Rightarrow> string) \<Rightarrow> field \<Rightarrow> py_error + field" where
  "map_marc8_field marc8_to_unicode f =
     (if is_control_field f then
        (case data f of
           None \<Rightarrow> Inl AttributeError
         | Some d \<Rightarrow> Inr (f\<lparr>data := Some (marc8_to_unicode d)\<rparr>))
      else
        (case subfields f of
           None \<Rightarrow> Inl AttributeError
         | Some (PyList subs) \<Rightarrow> Inr (f\<lparr>subfields := Some (PyMap (map marc8_to_unicode subs))\<rparr>)
         | Some (PyMap pending) \<Rightarrow>
             Inr (f\<lparr>subfields := Some (PyMap (map marc8_to_unicode pending))\<rparr>)))"

subsection \<open>The subfield list as pairs\<close>

text \<open>
  The flat list \<^verbatim>\<open>[code0, value0, code1, value1, ...]\<close> read as the sequence of
  (code, value) pairs it stands for.
\<close>

fun pairs_of :: "'a list \<Rightarrow> ('a \<times> 'a) list" where
  "pairs_of (c # v # rest) = (c, v) # pairs_of rest"
| "pairs_of _ = []"

text \<open>Back from the pairs to the flat list.\<close>

definition flatten :: "('a \<times> 'a) list \<Rightarrow> 'a list" where
  "flatten ps = concat (map (\<lambda>(c, v). [c, v]) ps)"

text \<open>
  Taking out the first pair with a given code: the value taken out, if there is one,
  and the pairs that are left.
\<close>

fun remove_first :: "'a \<Rightarrow> ('a \<times> 'b) list \<Rightarrow> 'b option \<times> ('a \<times> 'b) list" where
  "remove_first c [] = (None, [])"
| "remove_first c (p # ps) =
     (if fst p = c then (Some (snd p), ps)
      else (fst (remove_first c ps), p # snd (remove_first c ps)))"

text \<open>
  A decoder for a character set in which the byte 0x61 does not stand for the letter
  \<^verbatim>\<open>a\<close>: it yields U+00E1 for it and leaves every other byte as it is.
\<close>

definition sample_decoder :: "string \<Rightarrow> string" where
  "sample_decoder s = map (\<lambda>c. if c = CHR ''a'' then CHR 0xE1 else c) s"

text \<open>The invariant of a data field: the subfield list is there and has even length.\<close>

definition even_subfields :: "field \<Rightarrow> bool" where
  "even_subfields f =
     (case subfields f of Some (PyList subs) \<Rightarrow> even (length subs) | _ \<Rightarrow> False)"

section \<open>Properties\<close>

subsection \<open>Iteration yields the pairs\<close>

lemma iterate_no_subfields: "subfields f = None \<Longrightarrow> iterate_from f pos = Inr []"
  by (simp add: iterate_from.simps Field_next_def)

lemma iterate_from_even:
  "subfields f = Some (PyList subs) \<Longrightarrow> even (length subs) \<Longrightarrow> even pos \<Longrightarrow>
     iterate_from f pos = Inr (pairs_of (drop pos subs))"
proof (induction f pos rule: iterate_from.induct)
  case (1 f pos)
  note assms = "1.prems"
  show ?case
  proof (cases "pos < length subs")
    case False
    then show ?thesis using assms
      by (simp add: iterate_from.simps [of f pos] Field_next_def)
  next
    case True
    with assms have lt: "Suc pos < length subs"
      by (metis Suc_lessI even_Suc)
    then have d: "drop pos subs = subs ! pos # subs ! Suc pos # drop (pos + 2) subs"
      by (metis Cons_nth_drop_Suc Suc_lessD add_2_eq_Suc')
    have nx: "Field_next f pos = Inr (Some ((subs ! pos, subs ! Suc pos), pos + 2))"
      using assms True lt by (simp add: Field_next_def py_getitem_def py_index_def nat_add_distrib)
    have "iterate_from f (pos + 2) = Inr (pairs_of (drop (pos + 2) subs))"
      using "1.IH" [OF nx refl refl] assms by simp
    then show ?thesis
      by (simp add: iterate_from.simps [of f pos] nx d)
  qed
qed

lemma Field_iter_even:
  "subfields f = Some (PyList subs) \<Longrightarrow> even (length subs) \<Longrightarrow> Field_iter f = Inr (pairs_of subs)"
  using iterate_from_even [of f subs 0] by (simp add: Field_iter_def)

text \<open>A trailing code without a value ends every traversal with \<^verbatim>\<open>IndexError\<close>.\<close>

lemma iterate_from_odd:
  "subfields f = Some (PyList subs) \<Longrightarrow> odd (length subs) \<Longrightarrow> even pos \<Longrightarrow> pos < length subs \<Longrightarrow>
     iterate_from f pos = Inl IndexError"
proof (induction f pos rule: iterate_from.induct)
  case (1 f pos)
  note assms = "1.prems"(1,2)
  show ?case
  proof (cases "Suc pos < length subs")
    case False
    then show ?thesis using assms "1.prems"
      by (simp add: iterate_from.simps [of f pos] Field_next_def py_getitem_def py_index_def)
  next
    case True
    have nx: "Field_next f pos = Inr (Some ((subs ! pos, subs ! Suc pos), pos + 2))"
      using assms True by (simp add: Field_next_def py_getitem_def py_index_def nat_add_distrib)
    have "pos + 2 < length subs"
      using True assms(2) "1.prems"(3)
      by (metis Suc_lessI add_2_eq_Suc' even_Suc)
    then have "iterate_from f (pos + 2) = Inl IndexError"
      using "1.IH" [OF nx refl refl] "1.prems" by simp
    then show ?thesis
      by (simp add: iterate_from.simps [of f pos] nx)
  qed
qed

lemma Field_iter_odd:
  "subfields f = Some (PyList subs) \<Longrightarrow> odd (length subs) \<Longrightarrow> Field_iter f = Inl IndexError"
  using iterate_from_odd [of f subs 0] by (cases subs) (auto simp add: Field_iter_def)

subsection \<open>Tag classification\<close>

lemma nat_digits_decimal: "list_all is_decimal (nat_digits n)"
proof (induction n rule: nat_digits.induct)
  case (1 n)
  have "n mod 10 < 10" by simp
  then have a: "is_decimal (char_of (48 + n mod 10))"
    by (simp add: is_decimal_def)
  show ?case
  proof (cases "n < 10")
    case True
    then show ?thesis by (simp add: nat_digits.simps [of n] is_decimal_def)
  next
    case False
    then show ?thesis using 1 a by (simp add: nat_digits.simps [of n])
  qed
qed

lemma nat_digits_hd:
  "0 < n \<Longrightarrow> \<exists>d ds. nat_digits n = d # ds \<and> 49 \<le> (of_char d :: nat) \<and> (of_char d :: nat) \<le> 57"
proof (induction n rule: nat_digits.induct)
  case (1 n)
  show ?case
  proof (cases "n < 10")
    case True
    then show ?thesis using "1.prems" by (simp add: nat_digits.simps [of n])
  next
    case False
    then have "0 < n div 10" by simp
    with 1 False obtain d ds where "nat_digits (n div 10) = d # ds"
      "49 \<le> (of_char d :: nat)" "(of_char d :: nat) \<le> 57" by blast
    then show ?thesis using False by (simp add: nat_digits.simps [of n])
  qed
qed

lemma nat_digits_length: "10 \<le> n \<Longrightarrow> 2 \<le> length (nat_digits n)"
proof -
  assume "10 \<le> n"
  then have "0 < n div 10" by simp
  then obtain d ds where "nat_digits (n div 10) = d # ds"
    using nat_digits_hd by blast
  then show ?thesis
    using \<open>10 \<le> n\<close> by (simp add: nat_digits.simps [of n])
qed

text \<open>
  For a tag given as an integer: the normalized tag is a control-field tag exactly for
  0 to 9.
\<close>

lemma tag_is_control_format_03i:
  "tag_is_control (format_03i n) \<longleftrightarrow> 0 \<le> n \<and> n < 10"
proof -
  consider "n < 0" | "0 \<le> n" "n < 10" | "10 \<le> n" by linarith
  then show ?thesis
  proof cases
    case 1
    then show ?thesis
      by (simp add: tag_is_control_def format_03i_def isdigit_def char_isdigit_def is_decimal_def)
  next
    case 2
    then have "nat n < 10" by simp
    then have "nat_digits (nat n) = [char_of (48 + nat n)]"
      by (simp add: nat_digits.simps [of "nat n"])
    moreover have "char_isdigit (char_of (48 + nat n))" "char_isdigit CHR ''0''"
      using \<open>nat n < 10\<close> by (simp_all add: char_isdigit_def is_decimal_def)
    ultimately show ?thesis
      using 2 by (simp add: tag_is_control_def format_03i_def isdigit_def zero_pad_def
        numeral_3_eq_3)
  next
    case 3
    then have m: "10 \<le> nat n" "0 < nat n" by simp_all
    obtain d ds where ds: "nat_digits (nat n) = d # ds" "49 \<le> (of_char d :: nat)"
      using nat_digits_hd [OF m(2)] by blast
    have len: "2 \<le> length (nat_digits (nat n))" using nat_digits_length [OF m(1)] .
    then obtain e es where es: "ds = e # es" using ds by (cases ds) auto
    have dec: "list_all is_decimal (nat_digits (nat n))" by (rule nat_digits_decimal)
    have z: "(of_char CHR ''0'' :: nat) = 48" "(of_char CHR ''1'' :: nat) = 49" by simp_all
    have "\<not> format_03i n < ''010''"
    proof (cases es)
      case Nil
      have "48 \<le> (of_char e :: nat)" using dec ds es by (simp add: is_decimal_def)
      then show ?thesis
        using 3 ds es Nil
        by (auto simp: format_03i_def zero_pad_def less_char_def z simp del: of_char_Char)
    next
      case (Cons e' es')
      then show ?thesis
        using 3 ds es
        by (auto simp: format_03i_def zero_pad_def less_char_def z simp del: of_char_Char)
    qed
    then show ?thesis using 3 by (simp add: tag_is_control_def)
  qed
qed

text \<open>
  C7. \<^verbatim>\<open>is_control_field()\<close> is true iff the tag is purely numeric (in the sense
  of \<^verbatim>\<open>str.isdigit\<close>) and lexicographically less than \<^verbatim>\<open>"010"\<close>. Every tag
  \<^verbatim>\<open>"000"\<close> through \<^verbatim>\<open>"009"\<close> is a control field; a tag \<^verbatim>\<open>"010"\<close> or
  above is not, and a tag that is not numeric is not.
\<close>

theorem is_control_field_iff:
  "(is_control_field f \<longleftrightarrow> isdigit (tag f) \<and> tag f < ''010'')
   \<and> (\<forall>d. is_decimal d \<longrightarrow> tag f = [CHR ''0'', CHR ''0'', d] \<longrightarrow> is_control_field f)
   \<and> (''010'' \<le> tag f \<longrightarrow> \<not> is_control_field f)
   \<and> (\<not> isdigit (tag f) \<longrightarrow> \<not> is_control_field f)"
  by (auto simp: is_control_field_def tag_is_control_def isdigit_def char_isdigit_def
      is_decimal_def)

theorem is_control_field_iff_witness:
  "is_control_field \<lparr>tag = ''009'', data = Some ''x'', indicators = None, indicator1 = None,
      indicator2 = None, subfields = None\<rparr>
   \<and> is_decimal CHR ''9''
   \<and> ''010'' \<le> ''010''
   \<and> \<not> is_control_field \<lparr>tag = ''010'', data = None, indicators = Some [''0'', ''1''],
      indicator1 = Some ''0'', indicator2 = Some ''1'', subfields = Some (PyList [])\<rparr>
   \<and> \<not> isdigit ''abc''
   \<and> \<not> is_control_field \<lparr>tag = ''abc'', data = None, indicators = Some [''0'', ''1''],
      indicator1 = Some ''0'', indicator2 = Some ''1'', subfields = Some (PyList [])\<rparr>"
  using
    is_control_field_iff [of "\<lparr>tag = ''009'', data = Some ''x'', indicators = None,
      indicator1 = None, indicator2 = None, subfields = None\<rparr>"]
    is_control_field_iff [of "\<lparr>tag = ''010'', data = None, indicators = Some [''0'', ''1''],
      indicator1 = Some ''0'', indicator2 = Some ''1'', subfields = Some (PyList [])\<rparr>"]
    is_control_field_iff [of "\<lparr>tag = ''abc'', data = None, indicators = Some [''0'', ''1''],
      indicator1 = Some ''0'', indicator2 = Some ''1'', subfields = Some (PyList [])\<rparr>"]
  by (simp add: isdigit_def char_isdigit_def is_decimal_def)

subsection \<open>Text rendering\<close>

lemma str_indicators_concat:
  "str_indicators s inds =
     s @ concat (map (\<lambda>i. if i = '' '' \<or> i = [backslash] then [backslash] else i) inds)"
  unfolding str_indicators_def
  by (induction inds arbitrary: s) auto

lemma str_subfields_concat:
  "str_subfields s pairs = s @ concat (map (\<lambda>(c, v). ''$'' @ c @ v) pairs)"
  unfolding str_subfields_def
  by (induction pairs arbitrary: s) (auto simp: case_prod_beta)

text \<open>
  C8. The text rendering is \<^verbatim>\<open>=\<close>, the tag and two spaces, followed for a control
  field by the data with every space replaced by a backslash, and for a data field by
  each indicator (a space or a backslash as one backslash, any other as it is) and then
  \<^verbatim>\<open>$\<close>, code and value of every subfield in field order. The field built from
  tag \<^verbatim>\<open>"245"\<close>, indicators \<^verbatim>\<open>["0","1"]\<close> and subfields
  \<^verbatim>\<open>["a","Foo","b","Bar"]\<close> renders as \<^verbatim>\<open>=245  01$aFoo$bBar\<close>.
\<close>

theorem Field_str_format:
  "(is_control_field f \<longrightarrow> data f = Some d \<longrightarrow>
      Field_str f =
        Inr (''='' @ tag f @ ''  '' @ map (\<lambda>c. if c = CHR '' '' then backslash else c) d))
   \<and> (\<not> is_control_field f \<longrightarrow> indicators f = Some inds \<longrightarrow> subfields f = Some (PyList subs) \<longrightarrow>
        even (length subs) \<longrightarrow>
      Field_str f =
        Inr (''='' @ tag f @ ''  ''
             @ concat (map (\<lambda>i. if i = '' '' \<or> i = [backslash] then [backslash] else i) inds)
             @ concat (map (\<lambda>(c, v). ''$'' @ c @ v) (pairs_of subs))))
   \<and> (case Field_init (TagStr ''245'') (Some [''0'', ''1''])
               (Some [''a'', ''Foo'', ''b'', ''Bar'']) [] of
         Inl e \<Rightarrow> Inl e
       | Inr f' \<Rightarrow> Field_str f') = Inr ''=245  01$aFoo$bBar''"
proof -
  have i: "Field_init (TagStr ''245'') (Some [''0'', ''1''])
      (Some [''a'', ''Foo'', ''b'', ''Bar'']) [] =
     Inr \<lparr>tag = ''245'', data = None, indicators = Some [''0'', ''1''],
          indicator1 = Some ''0'', indicator2 = Some ''1'',
          subfields = Some (PyList [''a'', ''Foo'', ''b'', ''Bar''])\<rparr>"
    by code_simp
  have nc: "\<not> tag_is_control ''245''"
    by (simp add: tag_is_control_def)
  have s: "Field_str \<lparr>tag = ''245'', data = None, indicators = Some [''0'', ''1''],
          indicator1 = Some ''0'', indicator2 = Some ''1'',
          subfields = Some (PyList [''a'', ''Foo'', ''b'', ''Bar''])\<rparr> = Inr ''=245  01$aFoo$bBar''"
    by (simp add: Field_str_def is_control_field_def nc Field_iter_even str_indicators_concat
        str_subfields_concat backslash_def)
  show ?thesis
    using i s
    by (simp add: Field_str_def Field_iter_even str_indicators_concat str_subfields_concat)
qed

theorem Field_str_format_witness:
  "is_control_field \<lparr>tag = ''008'', data = Some ''a b  c'', indicators = None,
      indicator1 = None, indicator2 = None, subfields = None\<rparr>
   \<and> Field_str \<lparr>tag = ''008'', data = Some ''a b  c'', indicators = None,
      indicator1 = None, indicator2 = None, subfields = None\<rparr>
       = Inr (''=008  a'' @ [backslash] @ ''b'' @ [backslash, backslash] @ ''c'')
   \<and> \<not> is_control_field \<lparr>tag = ''245'', data = None, indicators = Some ['' '', [backslash]],
      indicator1 = Some '' '', indicator2 = Some [backslash],
      subfields = Some (PyList [''a'', ''Foo'', ''b'', ''Bar''])\<rparr>
   \<and> even (length [''a'', ''Foo'', ''b'', ''Bar''])
   \<and> Field_str \<lparr>tag = ''245'', data = None, indicators = Some ['' '', [backslash]],
      indicator1 = Some '' '', indicator2 = Some [backslash],
      subfields = Some (PyList [''a'', ''Foo'', ''b'', ''Bar''])\<rparr>
       = Inr (''=245  '' @ [backslash, backslash] @ ''$aFoo$bBar'')"
proof -
  have c: "tag_is_control ''008''" and nc: "\<not> tag_is_control ''245''"
    by (simp_all add: tag_is_control_def isdigit_def char_isdigit_def is_decimal_def)
  show ?thesis
    using
      Field_str_format [of "\<lparr>tag = ''008'', data = Some ''a b  c'', indicators = None,
        indicator1 = None, indicator2 = None, subfields = None\<rparr>" "''a b  c''"]
      Field_str_format [of "\<lparr>tag = ''245'', data = None, indicators = Some ['' '', [backslash]],
        indicator1 = Some '' '', indicator2 = Some [backslash],
        subfields = Some (PyList [''a'', ''Foo'', ''b'', ''Bar''])\<rparr>" _ "['' '', [backslash]]"
        "[''a'', ''Foo'', ''b'', ''Bar'']"]
    by (simp add: is_control_field_def c nc)
qed

subsection \<open>Construction\<close>

text \<open>
  C9. When the normalized tag is not a control-field tag, an indicator sequence whose
  length is not 2 makes construction fail (with \<^verbatim>\<open>ValueError\<close>), and so does
  supplying no indicators, which stands for the empty sequence; exactly two indicators
  make it succeed, stored as \<^verbatim>\<open>indicator1\<close> and \<^verbatim>\<open>indicator2\<close>.
\<close>

theorem init_indicator_arity:
  assumes "normalize_tag t = Inr tg" and "\<not> tag_is_control tg"
  shows "(length (case inds of None \<Rightarrow> [] | Some xs \<Rightarrow> xs) \<noteq> 2 \<longrightarrow>
            Field_init t inds subs d = Inl ValueError)
    \<and> Field_init t None subs d = Inl ValueError
    \<and> (\<forall>i1 i2. inds = Some [i1, i2] \<longrightarrow>
          Field_init t inds subs d =
            Inr \<lparr>tag = tg, data = None, indicators = Some [i1, i2],
                 indicator1 = Some i1, indicator2 = Some i2,
                 subfields = Some (PyList (case subs of None \<Rightarrow> [] | Some xs \<Rightarrow> xs))\<rparr>)"
  using assms
  by (auto simp: Field_init_def Let_def split: list.splits option.splits)

theorem init_indicator_arity_witness:
  "normalize_tag (TagInt 245) = Inr ''245''
   \<and> \<not> tag_is_control ''245''
   \<and> Field_init (TagInt 245) (Some [''0'']) (Some [''a'', ''Foo'']) [] = Inl ValueError
   \<and> Field_init (TagInt 245) (Some [''0'', ''1'', ''2'']) (Some [''a'', ''Foo'']) [] = Inl ValueError
   \<and> Field_init (TagInt 245) None (Some [''a'', ''Foo'']) [] = Inl ValueError
   \<and> Field_init (TagInt 245) (Some [''0'', ''1'']) (Some [''a'', ''Foo'']) [] =
       Inr \<lparr>tag = ''245'', data = None, indicators = Some [''0'', ''1''],
            indicator1 = Some ''0'', indicator2 = Some ''1'',
            subfields = Some (PyList [''a'', ''Foo''])\<rparr>
   \<and> normalize_tag (TagStr [CHR 0x1F, CHR ''7'']) = Inr [CHR '' '', CHR 0x1F, CHR ''7'']
   \<and> \<not> tag_is_control [CHR '' '', CHR 0x1F, CHR ''7'']
   \<and> Field_init (TagStr [CHR 0x1F, CHR ''7'']) None None [] = Inl ValueError"
proof -
  have n: "normalize_tag (TagInt 245) = Inr ''245''"
    by code_simp
  have nc: "\<not> tag_is_control ''245''"
    by (simp add: tag_is_control_def)
  have m: "normalize_tag (TagStr [CHR 0x1F, CHR ''7'']) = Inr [CHR '' '', CHR 0x1F, CHR ''7'']"
    by code_simp
  have mc: "\<not> tag_is_control [CHR '' '', CHR 0x1F, CHR ''7'']"
    by (simp add: tag_is_control_def isdigit_def char_isdigit_def is_decimal_def)
  show ?thesis
    using n nc m mc
      init_indicator_arity [OF n nc, of "Some [''0'']" "Some [''a'', ''Foo'']" "[]"]
      init_indicator_arity [OF n nc, of "Some [''0'', ''1'', ''2'']" "Some [''a'', ''Foo'']" "[]"]
      init_indicator_arity [OF n nc, of "Some [''0'', ''1'']" "Some [''a'', ''Foo'']" "[]"]
      init_indicator_arity [OF m mc, of None None "[]"]
    by simp
qed

text \<open>
  Where the tag cannot be normalized the constructor fails before it looks at the
  indicators.
\<close>

lemma init_tag_error:
  "normalize_tag t = Inl e \<Longrightarrow> Field_init t inds subs d = Inl e"
  by (simp add: Field_init_def)

subsection \<open>Queries on a control field\<close>

lemma init_control:
  "Field_init t inds subs d = Inr f \<Longrightarrow> is_control_field f \<Longrightarrow>
     subfields f = None \<and> data f = Some d \<and> indicators f = None"
  by (auto simp: Field_init_def Let_def is_control_field_def
      split: if_splits list.splits sum.splits)

text \<open>
  C10. On a control field, which has no subfield list, the subfield queries do not fail
  but report absence: iteration yields no pair, \<^verbatim>\<open>get_subfields\<close> returns the empty
  list for any codes, \<^verbatim>\<open>count\<close> is 0 for every code, the membership test is false
  and the item-style read returns \<^verbatim>\<open>None\<close>.
\<close>

theorem control_field_queries:
  assumes "is_control_field f" and "subfields f = None"
  shows "Field_iter f = Inr []
    \<and> get_subfields f codes with_codes = Inr []
    \<and> count f code = Inr 0
    \<and> Field_contains f code = Inr False
    \<and> Field_getitem f code = Inr None"
  using assms(2)
  by (simp add: Field_iter_def get_subfields_def count_def Field_contains_def
      Field_getitem_def iterate_no_subfields)

theorem control_field_queries_witness:
  "Field_init (TagStr ''001'') None None ''fol05731351'' =
       Inr \<lparr>tag = ''001'', data = Some ''fol05731351'', indicators = None,
       indicator1 = None, indicator2 = None, subfields = None\<rparr>
   \<and> is_control_field \<lparr>tag = ''001'', data = Some ''fol05731351'', indicators = None,
       indicator1 = None, indicator2 = None, subfields = None\<rparr>
   \<and> Field_iter \<lparr>tag = ''001'', data = Some ''fol05731351'', indicators = None,
       indicator1 = None, indicator2 = None, subfields = None\<rparr> = Inr []
   \<and> get_subfields \<lparr>tag = ''001'', data = Some ''fol05731351'', indicators = None,
       indicator1 = None, indicator2 = None, subfields = None\<rparr> [''a'', ''b''] True = Inr []
   \<and> count \<lparr>tag = ''001'', data = Some ''fol05731351'', indicators = None,
       indicator1 = None, indicator2 = None, subfields = None\<rparr> ''a'' = Inr 0
   \<and> Field_contains \<lparr>tag = ''001'', data = Some ''fol05731351'', indicators = None,
       indicator1 = None, indicator2 = None, subfields = None\<rparr> ''a'' = Inr False
   \<and> Field_getitem \<lparr>tag = ''001'', data = Some ''fol05731351'', indicators = None,
       indicator1 = None, indicator2 = None, subfields = None\<rparr> ''a'' = Inr None"
proof -
  have i: "Field_init (TagStr ''001'') None None ''fol05731351'' =
       Inr \<lparr>tag = ''001'', data = Some ''fol05731351'', indicators = None,
       indicator1 = None, indicator2 = None, subfields = None\<rparr>"
    by code_simp
  have c: "is_control_field \<lparr>tag = ''001'', data = Some ''fol05731351'', indicators = None,
       indicator1 = None, indicator2 = None, subfields = None\<rparr>"
    by (simp add: is_control_field_def tag_is_control_def isdigit_def char_isdigit_def
        is_decimal_def)
  show ?thesis
    using i c control_field_queries [OF c, where code = "''a''" and codes = "[''a'', ''b'']"
        and with_codes = True]
    by simp
qed

subsection \<open>The even-length invariant\<close>

lemma pop_pair_even:
  "even (length subs) \<Longrightarrow> even i \<Longrightarrow> even (length (snd (pop_pair subs i)))"
proof (cases "i < length subs")
  case False
  then show "even (length subs) \<Longrightarrow> ?thesis" by (simp add: pop_pair_def py_pop_def)
next
  case True
  assume "even (length subs)" "even i"
  with True have "Suc i < length subs"
    by (metis Suc_lessI even_Suc)
  then show ?thesis
    using \<open>even (length subs)\<close> by (simp add: pop_pair_def py_pop_def)
qed

lemma delete_scan_even:
  "even (length subs) \<Longrightarrow> even (length (snd (delete_scan subs code mv es)))"
  by (induction subs code mv es rule: delete_scan.induct)
     (auto simp: pop_pair_even split: option.splits sum.splits)

lemma even_subfields_iff:
  "even_subfields f \<longleftrightarrow> (\<exists>subs. subfields f = Some (PyList subs) \<and> even (length subs))"
  by (auto simp: even_subfields_def split: option.splits pyseq.splits)

lemma delete_subfield_even:
  "even_subfields f \<Longrightarrow> even_subfields (snd (delete_subfield f code mv))"
proof -
  assume "even_subfields f"
  then obtain subs where subs: "subfields f = Some (PyList subs)" "even (length subs)"
    unfolding even_subfields_iff by blast
  have "even (length (snd (delete_scan subs code mv (enumerate 0 subs))))"
    using subs(2) by (rule delete_scan_even)
  then show ?thesis
    using subs(1) by (auto simp: even_subfields_def delete_subfield_def split: prod.splits)
qed

lemma delete_all_subfields_even:
  "even_subfields f \<Longrightarrow> even_subfields (snd (delete_all_subfields f code))"
proof (induction f code rule: delete_all_subfields.induct)
  case (1 f code)
  obtain r f' where d: "delete_subfield f code None = (r, f')"
    by (cases "delete_subfield f code None")
  with "1.prems" have e: "even_subfields f'"
    using delete_subfield_even [of f code None] by simp
  show ?case
  proof (cases r)
    case (Inl e')
    with d e show ?thesis by (simp add: delete_all_subfields.simps [of f code])
  next
    case (Inr ov)
    show ?thesis
    proof (cases ov)
      case None
      with d e Inr show ?thesis by (simp add: delete_all_subfields.simps [of f code])
    next
      case (Some v)
      show ?thesis
      proof (cases "v = []")
        case True
        with d e Inr Some show ?thesis by (simp add: delete_all_subfields.simps [of f code])
      next
        case False
        have "even_subfields (snd (delete_all_subfields f' code))"
          using "1.IH" [OF d [symmetric] _ _ False e] Inr Some by simp
        with d Inr Some False show ?thesis
          by (simp add: delete_all_subfields.simps [of f code])
      qed
    qed
  qed
qed

lemma setitem_loop_length:
  "length (snd (setitem_loop subs code val k)) = length subs"
  by (induction subs code val k rule: setitem_loop.induct)
     (simp add: setitem_loop.simps py_setitem_def split: sum.splits option.splits)

lemma flatten_even: "even (length (concat (map (\<lambda>(c, v). [c, v]) ps)))"
  by (induction ps) auto

lemma Field_setitem_even:
  "even_subfields f \<Longrightarrow> even_subfields (snd (Field_setitem f code val))"
proof -
  assume "even_subfields f"
  then obtain subs where subs: "subfields f = Some (PyList subs)" "even (length subs)"
    unfolding even_subfields_iff by blast
  have "even (length (snd (setitem_loop subs code val (int (length subs) div 2))))"
    using subs(2) by (simp add: setitem_loop_length)
  then show ?thesis
    using subs
    by (auto simp: even_subfields_def Field_setitem_def add_subfield_def
        split: sum.splits prod.splits)
qed

text \<open>
  C6. On a data field whose subfield list has even length, every mutation leaves a
  subfield list of even length: \<^verbatim>\<open>add_subfield\<close>, \<^verbatim>\<open>delete_subfield\<close> with or
  without \<^verbatim>\<open>match_value\<close>, \<^verbatim>\<open>delete_all_subfields\<close>, \<^verbatim>\<open>change_code\<close>,
  \<^verbatim>\<open>sort\<close> with any key, and the item-style write (also when it raises).
\<close>

theorem mutations_keep_even:
  assumes "subfields f = Some (PyList subs)" and "even (length subs)"
  shows "even_subfields (snd (add_subfield f code val))
    \<and> even_subfields (snd (delete_subfield f code match_value))
    \<and> even_subfields (snd (delete_all_subfields f code))
    \<and> even_subfields (snd (change_code f from_code to_code))
    \<and> even_subfields (snd (Field_sort f key))
    \<and> even_subfields (snd (Field_setitem f code val))"
proof -
  have e: "even_subfields f"
    using assms by (simp add: even_subfields_def)
  have "even_subfields (snd (add_subfield f code val))"
    using assms by (simp add: even_subfields_def add_subfield_def)
  moreover have "even_subfields (snd (change_code f from_code to_code))"
    using assms by (simp add: even_subfields_def change_code_def)
  moreover have "even_subfields (snd (Field_sort f key))"
    using assms by (simp add: even_subfields_def Field_sort_def flatten_even)
  ultimately show ?thesis
    using delete_subfield_even [OF e] delete_all_subfields_even [OF e] Field_setitem_even [OF e]
    by simp
qed

theorem mutations_keep_even_witness:
  "even (length [''a'', ''x'', ''b'', ''y'', ''a'', ''z''])
   \<and> even_subfields (snd (add_subfield \<lparr>tag = ''245'', data = None,
        indicators = Some [''0'', ''1''], indicator1 = Some ''0'', indicator2 = Some ''1'',
        subfields = Some (PyList [''a'', ''x'', ''b'', ''y'', ''a'', ''z''])\<rparr> ''a'' ''w''))
   \<and> even_subfields (snd (delete_subfield \<lparr>tag = ''245'', data = None,
        indicators = Some [''0'', ''1''], indicator1 = Some ''0'', indicator2 = Some ''1'',
        subfields = Some (PyList [''a'', ''x'', ''b'', ''y'', ''a'', ''z''])\<rparr> ''a'' (Some ''z'')))
   \<and> even_subfields (snd (delete_all_subfields \<lparr>tag = ''245'', data = None,
        indicators = Some [''0'', ''1''], indicator1 = Some ''0'', indicator2 = Some ''1'',
        subfields = Some (PyList [''a'', ''x'', ''b'', ''y'', ''a'', ''z''])\<rparr> ''a''))
   \<and> even_subfields (snd (change_code \<lparr>tag = ''245'', data = None,
        indicators = Some [''0'', ''1''], indicator1 = Some ''0'', indicator2 = Some ''1'',
        subfields = Some (PyList [''a'', ''x'', ''b'', ''y'', ''a'', ''z''])\<rparr> ''a'' ''b''))
   \<and> even_subfields (snd (Field_sort \<lparr>tag = ''245'', data = None,
        indicators = Some [''0'', ''1''], indicator1 = Some ''0'', indicator2 = Some ''1'',
        subfields = Some (PyList [''a'', ''x'', ''b'', ''y'', ''a'', ''z''])\<rparr> default_key))
   \<and> even_subfields (snd (Field_setitem \<lparr>tag = ''245'', data = None,
        indicators = Some [''0'', ''1''], indicator1 = Some ''0'', indicator2 = Some ''1'',
        subfields = Some (PyList [''a'', ''x'', ''b'', ''y'', ''a'', ''z''])\<rparr> ''a'' ''w''))"
  using mutations_keep_even [of "\<lparr>tag = ''245'', data = None,
        indicators = Some [''0'', ''1''], indicator1 = Some ''0'', indicator2 = Some ''1'',
        subfields = Some (PyList [''a'', ''x'', ''b'', ''y'', ''a'', ''z''])\<rparr>"
        "[''a'', ''x'', ''b'', ''y'', ''a'', ''z'']" "''a''" "''w''" "Some ''z''" "''a''" "''b''"
        default_key]
  by simp

subsection \<open>The item-style write\<close>

lemma flatten_pairs_of:
  "even (length subs) \<Longrightarrow> concat (map (\<lambda>(c, v). [c, v]) (pairs_of subs)) = subs"
  by (induction subs rule: pairs_of.induct) auto

lemma length_pairs_of: "length (pairs_of subs) = length subs div 2"
  by (induction subs rule: pairs_of.induct) auto

lemma pairs_of_nth:
  "i < length (pairs_of subs) \<Longrightarrow> pairs_of subs ! i = (subs ! (2 * i), subs ! (2 * i + 1))"
proof (induction subs arbitrary: i rule: pairs_of.induct)
  case (1 c v rest)
  then show ?case by (cases i) auto
qed auto

lemma pairs_of_update:
  "i < length (pairs_of subs) \<Longrightarrow>
     pairs_of (subs[2 * i + 1 := v]) = (pairs_of subs)[i := (fst (pairs_of subs ! i), v)]"
proof (induction subs arbitrary: i rule: pairs_of.induct)
  case (1 c v rest)
  then show ?case by (cases i) auto
qed auto

lemma pairs_of_append:
  "even (length subs) \<Longrightarrow> pairs_of (subs @ [c, v]) = pairs_of subs @ [(c, v)]"
  by (induction subs rule: pairs_of.induct) auto

text \<open>The loop finds the last subfield with the code among the first k pairs.\<close>

lemma setitem_loop_finds:
  assumes "even (length subs)"
  shows "j < k \<Longrightarrow> k \<le> length subs div 2 \<Longrightarrow> subs ! (2 * j) = code \<Longrightarrow>
     (\<forall>j'. j < j' \<and> j' < k \<longrightarrow> subs ! (2 * j') \<noteq> code) \<Longrightarrow>
     setitem_loop subs code val (int k) = (Inr (), subs[2 * j + 1 := val])"
proof (induction k)
  case 0
  then show ?case by simp
next
  case (Suc k)
  have in_range: "2 * k + 1 < length subs"
    using Suc.prems(2) assms by (auto elim!: evenE)
  have g: "py_getitem subs (int (Suc k) * 2 - 2) = Inr (subs ! (2 * k))"
    using in_range by (simp add: py_getitem_def py_index_def nat_mult_distrib mult.commute)
  have s: "py_setitem subs (int (Suc k) * 2 - 1) val = Inr (subs[2 * k + 1 := val])"
    using in_range
    by (auto simp add: py_setitem_def py_index_def nat_mult_distrib nat_add_distrib mult.commute)
  have step: "setitem_loop subs code val (int (Suc k)) =
      (if subs ! (2 * k) = code then (Inr (), subs[2 * k + 1 := val])
       else setitem_loop subs code val (int k))"
    by (subst setitem_loop.simps) (use g s in simp)
  show ?case
  proof (cases "subs ! (2 * k) = code")
    case True
    have "j = k"
      using Suc.prems(1,4) True by (metis less_Suc_eq lessI)
    then show ?thesis
      using True step by simp
  next
    case False
    then have "j < k"
      using Suc.prems(1,3) by (metis less_Suc_eq)
    then have "setitem_loop subs code val (int k) = (Inr (), subs[2 * j + 1 := val])"
      using Suc.IH Suc.prems by simp
    then show ?thesis
      using False step by simp
  qed
qed

lemma filter_single:
  "length (filter P xs) = 1 \<Longrightarrow>
     \<exists>i < length xs. P (xs ! i) \<and> (\<forall>j < length xs. j \<noteq> i \<longrightarrow> \<not> P (xs ! j))"
proof -
  assume "length (filter P xs) = 1"
  then obtain x where "filter P xs = [x]"
    by (cases "filter P xs") auto
  then obtain us vs where xs: "xs = us @ x # vs" and us: "\<forall>u\<in>set us. \<not> P u" and x: "P x"
    and vs: "[] = filter P vs"
    unfolding filter_eq_Cons_iff by blast
  from vs have vs': "\<forall>u\<in>set vs. \<not> P u"
    by (metis filter_empty_conv)
  have "P (xs ! length us)" using xs x by simp
  moreover have "\<forall>j < length xs. j \<noteq> length us \<longrightarrow> \<not> P (xs ! j)"
  proof (intro allI impI)
    fix j assume j: "j < length xs" "j \<noteq> length us"
    show "\<not> P (xs ! j)"
    proof (cases "j < length us")
      case True
      then show ?thesis using xs us by (simp add: nth_append)
    next
      case False
      with j have "j - length us - 1 < length vs" "xs ! j = vs ! (j - length us - 1)"
        using xs by (auto simp: nth_append nth_Cons')
      then show ?thesis using vs' by (metis nth_mem)
    qed
  qed
  moreover have "length us < length xs" using xs by simp
  ultimately show ?thesis by blast
qed

lemma get_subfields_even:
  "subfields f = Some (PyList subs) \<Longrightarrow> even (length subs) \<Longrightarrow>
     get_subfields f [code] False =
       Inr (map (\<lambda>p. Str (snd p)) (filter (\<lambda>p. fst p = code) (pairs_of subs)))"
  by (simp add: get_subfields_def Field_iter_even)

lemma count_even:
  "subfields f = Some (PyList subs) \<Longrightarrow> even (length subs) \<Longrightarrow>
     count f code = Inr (length (filter (\<lambda>p. fst p = code) (pairs_of subs)))"
  by (simp add: count_def Field_iter_even)

text \<open>
  C3. On a data field (subfield list of even length): when more than one subfield has
  code \<^verbatim>\<open>c\<close>, the item-style write \<^verbatim>\<open>field[c] = value\<close> raises
  \<^verbatim>\<open>KeyError\<close> and leaves the field as it was; when none has, it appends
  \<^verbatim>\<open>(c, value)\<close> at the end; when exactly one has, it replaces that subfield's
  value where it stands.
\<close>

theorem Field_setitem_cases:
  assumes "subfields f = Some (PyList subs)" and "even (length subs)"
  shows "(\<forall>n. count f code = Inr n \<longrightarrow> 1 < n \<longrightarrow> Field_setitem f code val = (Inl KeyError, f))
    \<and> (count f code = Inr 0 \<longrightarrow>
          Field_setitem f code val = (Inr (), f\<lparr>subfields := Some (PyList (subs @ [code, val]))\<rparr>))
    \<and> (count f code = Inr 1 \<longrightarrow>
          (\<exists>i < length (pairs_of subs).
             fst (pairs_of subs ! i) = code
             \<and> Field_setitem f code val =
                 (Inr (), f\<lparr>subfields :=
                    Some (PyList (concat (map (\<lambda>(c, v). [c, v])
                      ((pairs_of subs)[i := (code, val)]))))\<rparr>)))"
proof (intro conjI allI impI)
  fix n assume "count f code = Inr n" "1 < n"
  then show "Field_setitem f code val = (Inl KeyError, f)"
    using assms by (simp add: count_even Field_setitem_def get_subfields_even)
next
  assume "count f code = Inr 0"
  then show "Field_setitem f code val = (Inr (), f\<lparr>subfields := Some (PyList (subs @ [code, val]))\<rparr>)"
    using assms by (simp add: count_even Field_setitem_def get_subfields_even add_subfield_def)
next
  let ?ps = "pairs_of subs"
  assume "count f code = Inr 1"
  then have one: "length (filter (\<lambda>p. fst p = code) ?ps) = 1"
    using assms by (simp add: count_even)
  then obtain i where i: "i < length ?ps" "fst (?ps ! i) = code"
    and others: "\<forall>j < length ?ps. j \<noteq> i \<longrightarrow> fst (?ps ! j) \<noteq> code"
    using filter_single [of "\<lambda>p. fst p = code" ?ps] by blast
  have n: "length ?ps = length subs div 2" by (rule length_pairs_of)
  have ci: "subs ! (2 * i) = code"
    using i by (simp add: pairs_of_nth)
  have nomatch: "\<forall>j'. i < j' \<and> j' < length subs div 2 \<longrightarrow> subs ! (2 * j') \<noteq> code"
    using others n by (auto simp: pairs_of_nth)
  have loop: "setitem_loop subs code val (int (length subs div 2)) =
      (Inr (), subs[2 * i + 1 := val])"
    using setitem_loop_finds [OF assms(2) _ _ ci nomatch] i(1) n by simp
  have "even (length (subs[2 * i + 1 := val]))" using assms by simp
  then have "subs[2 * i + 1 := val] =
      concat (map (\<lambda>(c, v). [c, v]) (pairs_of (subs[2 * i + 1 := val])))"
    by (simp add: flatten_pairs_of)
  also have "pairs_of (subs[2 * i + 1 := val]) = ?ps[i := (code, val)]"
    using i pairs_of_update [of i subs val] by simp
  finally have upd: "subs[2 * i + 1 := val] =
      concat (map (\<lambda>(c, v). [c, v]) (?ps[i := (code, val)]))" .
  have "Field_setitem f code val = (Inr (), f\<lparr>subfields := Some (PyList (subs[2 * i + 1 := val]))\<rparr>)"
    using assms one loop
    by (simp add: Field_setitem_def get_subfields_even zdiv_int)
  with upd i show "\<exists>i < length ?ps. fst (?ps ! i) = code
      \<and> Field_setitem f code val =
          (Inr (), f\<lparr>subfields := Some (PyList (concat (map (\<lambda>(c, v). [c, v]) (?ps[i := (code, val)]))))\<rparr>)"
    by auto
qed

theorem Field_setitem_cases_witness:
  "even (length [''a'', ''x'', ''b'', ''y'', ''a'', ''z''])
   \<and> count \<lparr>tag = ''245'', data = None, indicators = Some [''0'', ''1''],
        indicator1 = Some ''0'', indicator2 = Some ''1'',
        subfields = Some (PyList [''a'', ''x'', ''b'', ''y'', ''a'', ''z''])\<rparr> ''a'' = Inr 2
   \<and> Field_setitem \<lparr>tag = ''245'', data = None, indicators = Some [''0'', ''1''],
        indicator1 = Some ''0'', indicator2 = Some ''1'',
        subfields = Some (PyList [''a'', ''x'', ''b'', ''y'', ''a'', ''z''])\<rparr> ''a'' ''new'' =
       (Inl KeyError, \<lparr>tag = ''245'', data = None, indicators = Some [''0'', ''1''],
        indicator1 = Some ''0'', indicator2 = Some ''1'',
        subfields = Some (PyList [''a'', ''x'', ''b'', ''y'', ''a'', ''z''])\<rparr>)
   \<and> count \<lparr>tag = ''245'', data = None, indicators = Some [''0'', ''1''],
        indicator1 = Some ''0'', indicator2 = Some ''1'',
        subfields = Some (PyList [''a'', ''x'', ''b'', ''y'', ''a'', ''z''])\<rparr> ''c'' = Inr 0
   \<and> Field_setitem \<lparr>tag = ''245'', data = None, indicators = Some [''0'', ''1''],
        indicator1 = Some ''0'', indicator2 = Some ''1'',
        subfields = Some (PyList [''a'', ''x'', ''b'', ''y'', ''a'', ''z''])\<rparr> ''c'' ''new'' =
       (Inr (), \<lparr>tag = ''245'', data = None, indicators = Some [''0'', ''1''],
        indicator1 = Some ''0'', indicator2 = Some ''1'',
        subfields = Some (PyList [''a'', ''x'', ''b'', ''y'', ''a'', ''z'', ''c'', ''new''])\<rparr>)
   \<and> count \<lparr>tag = ''245'', data = None, indicators = Some [''0'', ''1''],
        indicator1 = Some ''0'', indicator2 = Some ''1'',
        subfields = Some (PyList [''a'', ''x'', ''b'', ''y'', ''a'', ''z''])\<rparr> ''b'' = Inr 1
   \<and> (\<exists>i < length (pairs_of [''a'', ''x'', ''b'', ''y'', ''a'', ''z'']).
         fst (pairs_of [''a'', ''x'', ''b'', ''y'', ''a'', ''z''] ! i) = ''b''
         \<and> Field_setitem \<lparr>tag = ''245'', data = None, indicators = Some [''0'', ''1''],
              indicator1 = Some ''0'', indicator2 = Some ''1'',
              subfields = Some (PyList [''a'', ''x'', ''b'', ''y'', ''a'', ''z''])\<rparr> ''b'' ''new'' =
             (Inr (), \<lparr>tag = ''245'', data = None, indicators = Some [''0'', ''1''],
              indicator1 = Some ''0'', indicator2 = Some ''1'',
              subfields = Some (PyList [''a'', ''x'', ''b'', ''y'', ''a'', ''z''])\<rparr>
                \<lparr>subfields := Some (PyList (concat (map (\<lambda>(c, v). [c, v])
                   ((pairs_of [''a'', ''x'', ''b'', ''y'', ''a'', ''z''])[i := (''b'', ''new'')]))))\<rparr>))"
proof -
  let ?f = "\<lparr>tag = ''245'', data = None, indicators = Some [''0'', ''1''],
        indicator1 = Some ''0'', indicator2 = Some ''1'',
        subfields = Some (PyList [''a'', ''x'', ''b'', ''y'', ''a'', ''z''])\<rparr>"
  have s: "subfields ?f = Some (PyList [''a'', ''x'', ''b'', ''y'', ''a'', ''z''])"
    and e: "even (length [''a'', ''x'', ''b'', ''y'', ''a'', ''z''])"
    by simp_all
  have ca: "count ?f ''a'' = Inr 2" and cc: "count ?f ''c'' = Inr 0"
    and cb: "count ?f ''b'' = Inr 1"
    by (simp_all add: count_even)
  show ?thesis
    using e ca cb cc
      Field_setitem_cases [OF s e, of "''a''" "''new''"]
      Field_setitem_cases [OF s e, of "''c''" "''new''"]
      Field_setitem_cases [OF s e, of "''b''" "''new''"]
    by simp
qed

subsection \<open>Serialization of raw fields\<close>

lemma py_add_Text_iff: "py_add (Text a) y = Inr r \<longleftrightarrow> (\<exists>b. y = Text b \<and> r = Text (a @ b))"
  by (cases y) auto

lemma py_add_Bytes_iff: "py_add (Bytes a) y = Inr r \<longleftrightarrow> (\<exists>b. y = Bytes b \<and> r = Bytes (a @ b))"
  by (cases y) auto

lemma py_add_to_Text_iff: "py_add x (Text b) = Inr r \<longleftrightarrow> (\<exists>a. x = Text a \<and> r = Text (a @ b))"
  by (cases x) auto

lemma py_add_to_Bytes_iff: "py_add x (Bytes b) = Inr r \<longleftrightarrow> (\<exists>a. x = Bytes a \<and> r = Bytes (a @ b))"
  by (cases x) auto

lemma encode_ascii_Inr: "encode_ascii x = Inr r \<Longrightarrow> \<exists>s. x = Text s \<and> r = Bytes s"
  by (cases x) (auto split: if_splits)

lemma as_marc_loop_Text:
  "as_marc_loop sd f pos marc = Inr r \<Longrightarrow> \<exists>m. marc = Text m \<Longrightarrow> \<exists>t. r = Text t"
proof (induction sd f pos marc rule: as_marc_loop.induct)
  case (1 sd f pos marc)
  show ?case
    using "1.prems" "1.IH"
    by (auto simp: as_marc_loop.simps [of sd f pos marc] py_add_Text_iff py_add_to_Text_iff
        split: sum.splits option.splits)
qed

lemma raw_as_marc_loop_Bytes:
  "raw_as_marc_loop sd f pos marc = Inr r \<Longrightarrow> \<exists>m. marc = Bytes m \<Longrightarrow> \<exists>t. r = Bytes t"
proof (induction sd f pos marc rule: raw_as_marc_loop.induct)
  case (1 sd f pos marc)
  show ?case
    using "1.prems" "1.IH"
    by (auto simp: raw_as_marc_loop.simps [of sd f pos marc] py_add_Bytes_iff
        py_add_to_Bytes_iff split: sum.splits option.splits)
qed

text \<open>
  Whatever the two constants are: when \<^verbatim>\<open>Field.as_marc\<close> returns for some field,
  \<^verbatim>\<open>END_OF_FIELD\<close> is text, and then \<^verbatim>\<open>RawField.as_marc\<close> returns for no
  raw field that keeps byte strings, since it adds \<^verbatim>\<open>END_OF_FIELD\<close> to bytes.
\<close>

lemma as_marc_needs_text:
  "as_marc codec sd eof f encoding = Inr r \<Longrightarrow> \<exists>t. eof = Text t"
  by (auto simp: as_marc_def py_add_Text_iff split: if_splits option.splits sum.splits
      dest!: as_marc_loop_Text)

lemma RawField_as_marc_raises:
  "snd (RawField_as_marc sd (Text t) f encoding) \<noteq> Inr r"
  by (auto simp: RawField_as_marc_def py_add_Bytes_iff py_add_to_Text_iff
      split: if_splits option.splits sum.splits dest!: raw_as_marc_loop_Bytes encode_ascii_Inr)

lemma serializers_disagree:
  "as_marc codec sd eof g encoding = Inr r \<Longrightarrow>
     snd (RawField_as_marc sd eof f encoding') \<noteq> Inr r'"
  using as_marc_needs_text RawField_as_marc_raises by blast

lemma raw_as_marc_loop_even:
  "subfields f = Some (PyList subs) \<Longrightarrow> even (length subs) \<Longrightarrow> even pos \<Longrightarrow>
   list_all (\<lambda>c. (of_char c :: nat) < 128) s \<Longrightarrow>
     raw_as_marc_loop (Text s) f pos (Bytes m) =
       Inr (Bytes (m @ concat (map (\<lambda>(c, v). s @ c @ v) (pairs_of (drop pos subs)))))"
proof (induction "Text s" f pos "Bytes m" arbitrary: m rule: raw_as_marc_loop.induct)
  case (1 f pos m)
  note assms = "1.prems"
  show ?case
  proof (cases "pos < length subs")
    case False
    then show ?thesis using assms
      by (simp add: raw_as_marc_loop.simps [of _ f pos] Field_next_def)
  next
    case True
    with assms have lt: "Suc pos < length subs"
      by (metis Suc_lessI even_Suc)
    then have d: "drop pos subs = subs ! pos # subs ! Suc pos # drop (pos + 2) subs"
      by (metis Cons_nth_drop_Suc Suc_lessD add_2_eq_Suc')
    have nx: "Field_next f pos = Inr (Some ((subs ! pos, subs ! Suc pos), pos + 2))"
      using assms True lt by (simp add: Field_next_def py_getitem_def py_index_def nat_add_distrib)
    have enc: "encode_ascii (Text s) = Inr (Bytes s)"
      using assms by simp
    have "raw_as_marc_loop (Text s) f (pos + 2) (Bytes (m @ (s @ subs ! pos) @ subs ! Suc pos)) =
        Inr (Bytes ((m @ (s @ subs ! pos) @ subs ! Suc pos)
          @ concat (map (\<lambda>(c, v). s @ c @ v) (pairs_of (drop (pos + 2) subs)))))"
      using "1.hyps" [OF nx refl refl enc, of "Bytes (s @ subs ! pos)"
          "Bytes ((s @ subs ! pos) @ subs ! Suc pos)"
          "(m @ (s @ subs ! pos) @ subs ! Suc pos)"] assms
      by simp
    then show ?thesis
      using assms(4) by (simp add: raw_as_marc_loop.simps [of _ f pos] nx d)
  qed
qed

text \<open>
  The warning is logged whatever follows, and what follows does not depend on the
  encoding.
\<close>

lemma RawField_as_marc_logs:
  "fst (RawField_as_marc sd eof f (Some e)) =
       [Warning (''Attempt to force a RawField into encoding '' @ e)]
   \<and> fst (RawField_as_marc sd eof f None) = []
   \<and> snd (RawField_as_marc sd eof f (Some e)) = snd (RawField_as_marc sd eof f None)"
  by (simp add: RawField_as_marc_def)

text \<open>
  With a terminator that were bytes the raw serializer would return the layout the
  specification describes; with the text terminator it raises \<^verbatim>\<open>TypeError\<close>.
\<close>

lemma RawField_as_marc_data_field:
  assumes "\<not> is_control_field f" and "indicator1 f = Some i1" and "indicator2 f = Some i2"
    and "list_all (\<lambda>c. (of_char c :: nat) < 128) i1"
    and "list_all (\<lambda>c. (of_char c :: nat) < 128) i2"
    and "list_all (\<lambda>c. (of_char c :: nat) < 128) s"
    and "subfields f = Some (PyList subs)" and "even (length subs)"
  shows "snd (RawField_as_marc (Text s) (Bytes t) f encoding) =
      Inr (Bytes (i1 @ i2 @ concat (map (\<lambda>(c, v). s @ c @ v) (pairs_of subs)) @ t))"
    and "snd (RawField_as_marc (Text s) (Text t) f encoding) = Inl TypeError"
  using assms raw_as_marc_loop_even [of f subs 0 s "i1 @ i2"]
  by (simp_all add: RawField_as_marc_def)

lemma RawField_as_marc_control_field:
  assumes "is_control_field f" and "data f = Some d"
  shows "snd (RawField_as_marc sd (Bytes t) f encoding) = Inr (Bytes (d @ t))"
    and "snd (RawField_as_marc sd (Text t) f encoding) = Inl TypeError"
  using assms by (simp_all add: RawField_as_marc_def)

lemma as_marc_example:
  "as_marc (\<lambda>encoding s. Inr s) SUBFIELD_INDICATOR END_OF_FIELD
      \<lparr>tag = ''245'', data = None, indicators = Some [''0'', ''1''],
        indicator1 = Some ''0'', indicator2 = Some ''1'', subfields = Some (PyList [''a'', ''X''])\<rparr>
      ''utf-8'' = Inr (Bytes (''01'' @ [CHR 0x1F] @ ''aX'' @ [CHR 0x1E]))"
  by (simp add: as_marc_def SUBFIELD_INDICATOR_def END_OF_FIELD_def is_control_field_def
        tag_is_control_def as_marc_loop.simps Field_next_def py_getitem_def py_index_def)

text \<open>
  C5. \<^verbatim>\<open>RawField.as_marc(e)\<close> with an encoding \<^verbatim>\<open>e\<close> should log a warning
  and return the same bytes as \<^verbatim>\<open>RawField.as_marc()\<close>: indicators, then delimiter,
  code and value of every subfield, then the field terminator. It logs the warning, but
  neither call returns: the terminator, a text constant, is added to bytes without the
  \<^verbatim>\<open>encode('ascii')\<close> that the subfield delimiter gets, and \<^verbatim>\<open>TypeError\<close> is
  raised, for a data field and for a control field alike.
\<close>

theorem RawField_as_marc_type_error:
  "RawField_as_marc SUBFIELD_INDICATOR END_OF_FIELD
      \<lparr>tag = ''245'', data = None, indicators = Some [''0'', ''1''],
        indicator1 = Some ''0'', indicator2 = Some ''1'', subfields = Some (PyList [''a'', ''X''])\<rparr>
      (Some ''utf-8'') =
     ([Warning ''Attempt to force a RawField into encoding utf-8''], Inl TypeError)
   \<and> RawField_as_marc SUBFIELD_INDICATOR END_OF_FIELD
      \<lparr>tag = ''245'', data = None, indicators = Some [''0'', ''1''],
        indicator1 = Some ''0'', indicator2 = Some ''1'', subfields = Some (PyList [''a'', ''X''])\<rparr>
      None = ([], Inl TypeError)
   \<and> RawField_as_marc SUBFIELD_INDICATOR END_OF_FIELD
      \<lparr>tag = ''001'', data = Some ''abc'', indicators = None,
        indicator1 = None, indicator2 = None, subfields = None\<rparr>
      None = ([], Inl TypeError)"
proof -
  have c: "tag_is_control ''001''" and nc: "\<not> tag_is_control ''245''"
    by (simp_all add: tag_is_control_def isdigit_def char_isdigit_def is_decimal_def)
  show ?thesis
    using raw_as_marc_loop_even [of "\<lparr>tag = ''245'', data = None,
        indicators = Some [''0'', ''1''], indicator1 = Some ''0'', indicator2 = Some ''1'',
        subfields = Some (PyList [''a'', ''X''])\<rparr>" "[''a'', ''X'']" 0 "[CHR 0x1F]" "''01''"]
    by (simp add: RawField_as_marc_def SUBFIELD_INDICATOR_def END_OF_FIELD_def
        is_control_field_def c nc)
qed

subsection \<open>The MARC-8 decode hook\<close>

text \<open>
  On a control field the data is decoded and nothing else changes. On a data field the
  tag and the indicators stay, and \<^verbatim>\<open>subfields\<close> becomes a map object over the
  decoded elements of the flat list, the codes decoded like the values.
\<close>

lemma map_marc8_field_control_field:
  "is_control_field f \<Longrightarrow> data f = Some d \<Longrightarrow>
     map_marc8_field decoder f = Inr (f\<lparr>data := Some (decoder d)\<rparr>)"
  by (simp add: map_marc8_field_def)

lemma map_marc8_field_data_field:
  "\<not> is_control_field f \<Longrightarrow> subfields f = Some (PyList subs) \<Longrightarrow>
     map_marc8_field decoder f = Inr (f\<lparr>subfields := Some (PyMap (map decoder subs))\<rparr>)"
  by (simp add: map_marc8_field_def)

text \<open>
  A field whose \<^verbatim>\<open>subfields\<close> is a map object cannot be traversed:
  \<^verbatim>\<open>__next__\<close> asks for its \<^verbatim>\<open>len\<close>. Every query and the item-style write
  raise \<^verbatim>\<open>TypeError\<close>, sorting does too, and a subfield cannot be added.
\<close>

lemma iterate_from_map_object:
  "subfields f = Some (PyMap pending) \<Longrightarrow> iterate_from f pos = Inl TypeError"
  by (simp add: iterate_from.simps [of f pos] Field_next_def)

lemma map_object_unusable:
  assumes "subfields f = Some (PyMap pending)"
  shows "Field_iter f = Inl TypeError"
    and "get_subfields f codes with_codes = Inl TypeError"
    and "count f code = Inl TypeError"
    and "Field_getitem f code = Inl TypeError"
    and "Field_contains f code = Inl TypeError"
    and "Field_setitem f code val = (Inl TypeError, f)"
    and "Field_sort f key = (Inl TypeError, f)"
    and "add_subfield f code val = (Inl AttributeError, f)"
  using assms
  by (simp_all add: Field_iter_def iterate_from_map_object get_subfields_def count_def
      Field_getitem_def Field_contains_def Field_setitem_def Field_sort_def add_subfield_def)

lemma map_object_str:
  "\<not> is_control_field f \<Longrightarrow> indicators f = Some inds \<Longrightarrow> subfields f = Some (PyMap pending) \<Longrightarrow>
     Field_str f = Inl TypeError"
  by (simp add: Field_str_def Field_iter_def iterate_from_map_object)

text \<open>
  C4. \<^verbatim>\<open>map_marc8_field\<close> should rewrite only the data of a control field or the
  subfield values of a data field, and leave tag, indicators, subfield codes and the list
  structure of the field as they were. On a data field it leaves no list: line 323 stores
  what \<^verbatim>\<open>map(...)\<close> returns, in Python 3 a lazy map object, so the field built from
  tag \<^verbatim>\<open>"245"\<close>, indicators \<^verbatim>\<open>["0","1"]\<close> and subfields \<^verbatim>\<open>["a","xyz"]\<close>
  comes back with a \<^verbatim>\<open>subfields\<close> on which \<^verbatim>\<open>count\<close>,
  \<^verbatim>\<open>get_subfields\<close>, the item-style read and the text rendering raise
  \<^verbatim>\<open>TypeError\<close>. The object would yield the code decoded like the value.
\<close>

theorem map_marc8_field_map_object:
  "map_marc8_field sample_decoder \<lparr>tag = ''245'', data = None,
        indicators = Some [''0'', ''1''], indicator1 = Some ''0'', indicator2 = Some ''1'',
        subfields = Some (PyList [''a'', ''xyz''])\<rparr> =
       Inr \<lparr>tag = ''245'', data = None, indicators = Some [''0'', ''1''],
        indicator1 = Some ''0'', indicator2 = Some ''1'',
        subfields = Some (PyMap [[CHR 0xE1], ''xyz''])\<rparr>
   \<and> count \<lparr>tag = ''245'', data = None, indicators = Some [''0'', ''1''],
        indicator1 = Some ''0'', indicator2 = Some ''1'',
        subfields = Some (PyMap [[CHR 0xE1], ''xyz''])\<rparr> ''a'' = Inl TypeError
   \<and> get_subfields \<lparr>tag = ''245'', data = None, indicators = Some [''0'', ''1''],
        indicator1 = Some ''0'', indicator2 = Some ''1'',
        subfields = Some (PyMap [[CHR 0xE1], ''xyz''])\<rparr> [] False = Inl TypeError
   \<and> Field_getitem \<lparr>tag = ''245'', data = None, indicators = Some [''0'', ''1''],
        indicator1 = Some ''0'', indicator2 = Some ''1'',
        subfields = Some (PyMap [[CHR 0xE1], ''xyz''])\<rparr> ''a'' = Inl TypeError
   \<and> Field_str \<lparr>tag = ''245'', data = None, indicators = Some [''0'', ''1''],
        indicator1 = Some ''0'', indicator2 = Some ''1'',
        subfields = Some (PyMap [[CHR 0xE1], ''xyz''])\<rparr> = Inl TypeError"
proof -
  have nc: "\<not> tag_is_control ''245''"
    by (simp add: tag_is_control_def)
  show ?thesis
    by (simp add: map_marc8_field_def is_control_field_def nc sample_decoder_def
        map_object_unusable map_object_str)
qed

subsection \<open>Deleting all subfields of a code\<close>

lemma flatten_simps [simp]:
  "flatten [] = []" "flatten ((c, v) # ps) = c # v # flatten ps"
  by (simp_all add: flatten_def)

lemma flatten_pairs_of': "even (length subs) \<Longrightarrow> flatten (pairs_of subs) = subs"
  by (simp add: flatten_def flatten_pairs_of)

lemma delete_scan_pairs:
  "even (length pre) \<Longrightarrow> even (length rest) \<Longrightarrow>
     delete_scan (pre @ rest) code None (enumerate (length pre) rest) =
       (Inr (fst (remove_first code (pairs_of rest))),
        pre @ flatten (snd (remove_first code (pairs_of rest))))"
proof (induction rest arbitrary: pre rule: pairs_of.induct)
  case (1 c v rest)
  show ?case
  proof (cases "code = c")
    case True
    moreover have "length pre mod 2 = 0"
      using "1.prems"(1) by presburger
    ultimately show ?thesis
      using "1.prems" by (simp add: pop_pair_def py_pop_def nth_append flatten_pairs_of')
  next
    case False
    have "delete_scan ((pre @ [c, v]) @ rest) code None (enumerate (length (pre @ [c, v])) rest) =
       (Inr (fst (remove_first code (pairs_of rest))),
        (pre @ [c, v]) @ flatten (snd (remove_first code (pairs_of rest))))"
      using "1.prems" by (intro "1.IH") auto
    moreover have "Suc (length pre) mod 2 \<noteq> 0"
      using "1.prems"(1) by presburger
    moreover have "length pre mod 2 = 0"
      using "1.prems"(1) by presburger
    ultimately show ?thesis
      using False by simp
  qed
qed simp_all

lemma delete_subfield_pairs:
  "subfields f = Some (PyList subs) \<Longrightarrow> even (length subs) \<Longrightarrow>
     delete_subfield f code None =
       (Inr (fst (remove_first code (pairs_of subs))),
        f\<lparr>subfields := Some (PyList (flatten (snd (remove_first code (pairs_of subs)))))\<rparr>)"
  using delete_scan_pairs [of "[]" subs code] by (simp add: delete_subfield_def)

lemma remove_first_None:
  "fst (remove_first c ps) = None \<Longrightarrow> snd (remove_first c ps) = ps \<and> filter (\<lambda>p. fst p \<noteq> c) ps = ps"
  by (induction ps) (auto split: if_splits)

lemma remove_first_Some:
  "fst (remove_first c ps) = Some v \<Longrightarrow>
     (c, v) \<in> set ps
     \<and> filter (\<lambda>p. fst p \<noteq> c) (snd (remove_first c ps)) = filter (\<lambda>p. fst p \<noteq> c) ps
     \<and> set (snd (remove_first c ps)) \<subseteq> set ps
     \<and> length (snd (remove_first c ps)) < length ps"
  by (induction ps) (auto split: if_splits)

lemma pairs_of_flatten [simp]: "pairs_of (flatten ps) = ps"
  by (induction ps) auto

lemma even_length_flatten [simp]: "even (length (flatten ps))"
  by (induction ps) auto

lemma delete_all_subfields_pairs:
  "subfields f = Some (PyList (flatten ps)) \<Longrightarrow> (\<forall>v. (c, v) \<in> set ps \<longrightarrow> v \<noteq> []) \<Longrightarrow>
     delete_all_subfields f c =
       (Inr (), f\<lparr>subfields := Some (PyList (flatten (filter (\<lambda>p. fst p \<noteq> c) ps)))\<rparr>)"
proof (induction "length ps" arbitrary: f ps rule: less_induct)
  case less
  have d: "delete_subfield f c None =
       (Inr (fst (remove_first c ps)), f\<lparr>subfields := Some (PyList (flatten (snd (remove_first c ps))))\<rparr>)"
    using delete_subfield_pairs [of f "flatten ps" c] less.prems(1) by simp
  show ?case
  proof (cases "fst (remove_first c ps)")
    case None
    then show ?thesis
      using d remove_first_None [of c ps] less.prems(1)
      by (simp add: delete_all_subfields.simps [of f c])
  next
    case (Some v)
    note rf = remove_first_Some [OF Some]
    let ?f' = "f\<lparr>subfields := Some (PyList (flatten (snd (remove_first c ps))))\<rparr>"
    have v: "v \<noteq> []" using rf less.prems(2) by blast
    have "delete_all_subfields ?f' c =
       (Inr (), ?f'\<lparr>subfields := Some (PyList (flatten (filter (\<lambda>p. fst p \<noteq> c) (snd (remove_first c ps)))))\<rparr>)"
      using rf less.prems(2) by (intro less.hyps) auto
    then show ?thesis
      using d Some v rf by (simp add: delete_all_subfields.simps [of f c])
  qed
qed

text \<open>
  Where no subfield with the code has an empty value, the loop does delete them all and
  keeps the others in their order.
\<close>

lemma delete_all_subfields_nonempty_values:
  assumes "subfields f = Some (PyList subs)" and "even (length subs)"
    and "\<forall>v. (c, v) \<in> set (pairs_of subs) \<longrightarrow> v \<noteq> []"
  shows "delete_all_subfields f c =
       (Inr (), f\<lparr>subfields := Some (PyList (flatten (filter (\<lambda>p. fst p \<noteq> c) (pairs_of subs))))\<rparr>)"
    and "count (snd (delete_all_subfields f c)) c = Inr 0"
proof -
  show g: "delete_all_subfields f c =
       (Inr (), f\<lparr>subfields := Some (PyList (flatten (filter (\<lambda>p. fst p \<noteq> c) (pairs_of subs))))\<rparr>)"
    using assms delete_all_subfields_pairs [of f "pairs_of subs" c]
    by (simp add: flatten_pairs_of')
  show "count (snd (delete_all_subfields f c)) c = Inr 0"
    by (simp add: g count_even [of _ "flatten (filter (\<lambda>p. fst p \<noteq> c) (pairs_of subs))"])
qed

text \<open>
  C1. After \<^verbatim>\<open>delete_all_subfields(c)\<close> no subfield with code \<^verbatim>\<open>c\<close> should
  remain, also when values are empty. The loop stops as soon as \<^verbatim>\<open>delete_subfield\<close>
  returns a falsy value, and the empty text is falsy: with subfields
  \<^verbatim>\<open>["a", "", "a", "x"]\<close> it deletes the first subfield only, and one subfield
  with code \<^verbatim>\<open>a\<close> is left.
\<close>

theorem delete_all_subfields_empty_value:
  "delete_all_subfields \<lparr>tag = ''245'', data = None, indicators = Some [''0'', ''1''],
        indicator1 = Some ''0'', indicator2 = Some ''1'',
        subfields = Some (PyList [''a'', '''', ''a'', ''x''])\<rparr> ''a'' =
     (Inr (), \<lparr>tag = ''245'', data = None, indicators = Some [''0'', ''1''],
        indicator1 = Some ''0'', indicator2 = Some ''1'', subfields = Some (PyList [''a'', ''x''])\<rparr>)
   \<and> count \<lparr>tag = ''245'', data = None, indicators = Some [''0'', ''1''],
        indicator1 = Some ''0'', indicator2 = Some ''1'', subfields = Some (PyList [''a'', ''x''])\<rparr> ''a''
       = Inr 1"
  by (simp add: delete_all_subfields.simps delete_subfield_def enumerate_eq_zip pop_pair_def
      py_pop_def count_def Field_iter_even)

subsection \<open>Sorting\<close>

lemma zip_slices: "zip (slice2 subs) (slice2 (drop (Suc 0) subs)) = pairs_of subs"
  by (induction subs rule: pairs_of.induct) auto

lemma Field_sort_pairs:
  "subfields f = Some (PyList subs) \<Longrightarrow>
     Field_sort f key = (Inr (), f\<lparr>subfields := Some (PyList (flatten (sort_key key (pairs_of subs))))\<rparr>)"
  by (simp add: Field_sort_def zip_slices flatten_def)

text \<open>
  What \<^verbatim>\<open>sort\<close> does: the pairs end up in non-decreasing order of the key, which
  is applied to the pair, and pairs with equal keys keep their order.
\<close>

lemma Field_sort_sorted_stable:
  assumes "subfields f = Some (PyList subs)"
  shows "\<exists>subs'. subfields (snd (Field_sort f key)) = Some (PyList subs')
      \<and> sorted (map key (pairs_of subs'))
      \<and> (\<forall>k. filter (\<lambda>p. key p = k) (pairs_of subs') = filter (\<lambda>p. key p = k) (pairs_of subs))"
  using assms by (simp add: Field_sort_pairs sort_key_stable)

text \<open>
  A key that looks at the code only sorts by code and keeps the subfields of one code in
  their order.
\<close>

lemma Field_sort_key_on_code:
  assumes "subfields f = Some (PyList subs)"
  shows "\<exists>subs'. subfields (snd (Field_sort f (\<lambda>p. k (fst p)))) = Some (PyList subs')
      \<and> sorted (map k (map fst (pairs_of subs')))
      \<and> (\<forall>c. filter (\<lambda>p. fst p = c) (pairs_of subs') = filter (\<lambda>p. fst p = c) (pairs_of subs))"
proof -
  let ?ps = "pairs_of subs" and ?key = "\<lambda>p. k (fst p)"
  have "filter (\<lambda>p. fst p = c) (sort_key ?key ?ps) = filter (\<lambda>p. fst p = c) ?ps" for c
  proof -
    have "filter (\<lambda>p. fst p = c) (sort_key ?key ?ps) =
        filter (\<lambda>p. fst p = c) (filter (\<lambda>p. ?key p = k c) (sort_key ?key ?ps))"
      by (simp add: conj_commute cong: conj_cong)
    also have "\<dots> = filter (\<lambda>p. fst p = c) (filter (\<lambda>p. ?key p = k c) ?ps)"
      by (simp only: sort_key_stable)
    also have "\<dots> = filter (\<lambda>p. fst p = c) ?ps"
      by (simp add: conj_commute cong: conj_cong)
    finally show ?thesis .
  qed
  moreover have "sorted (map k (map fst (sort_key ?key ?ps)))"
    using sorted_sort_key [of ?key ?ps] by (simp add: comp_def)
  ultimately show ?thesis
    using assms by (simp add: Field_sort_pairs)
qed

text \<open>
  The default key is the pair itself: the codes end up in non-decreasing order, and the
  subfields of one code in the order of their values.
\<close>

lemma sorted_fst: "sorted (ps :: ('a::linorder \<times> 'b::linorder) list) \<Longrightarrow> sorted (map fst ps)"
  by (induction ps) (auto simp: less_eq_prod_def)

lemma Field_sort_default_codes:
  assumes "subfields f = Some (PyList subs)"
  shows "\<exists>subs'. subfields (snd (Field_sort f default_key)) = Some (PyList subs')
      \<and> sorted (pairs_of subs') \<and> sorted (map fst (pairs_of subs'))"
proof -
  have "sorted (sort_key default_key (pairs_of subs))"
    using sorted_sort_key [of default_key "pairs_of subs"]
    by (simp add: default_key_def [abs_def])
  then show ?thesis
    using assms by (simp add: Field_sort_pairs sorted_fst)
qed

text \<open>
  C2. After \<^verbatim>\<open>sort()\<close> two subfields with the same code should keep their order.
  The key is handed the (code, value) tuple, not the code, so the default key orders
  subfields of one code by value: \<^verbatim>\<open>["a", "z", "a", "b"]\<close> becomes
  \<^verbatim>\<open>["a", "b", "a", "z"]\<close>.
\<close>

theorem Field_sort_default_key_reorders:
  "Field_sort \<lparr>tag = ''245'', data = None, indicators = Some [''0'', ''1''],
        indicator1 = Some ''0'', indicator2 = Some ''1'',
        subfields = Some (PyList [''a'', ''z'', ''a'', ''b''])\<rparr> default_key =
     (Inr (), \<lparr>tag = ''245'', data = None, indicators = Some [''0'', ''1''],
        indicator1 = Some ''0'', indicator2 = Some ''1'',
        subfields = Some (PyList [''a'', ''b'', ''a'', ''z''])\<rparr>)"
  by (simp add: Field_sort_def default_key_def)

end
